theory Spec2Isabelle
  imports Complex_Main
begin

section \<open>JavaScript values\<close>

text \<open>
  Log records are plain JavaScript data: scalars, arrays and objects. An object is the
  list of its own enumerable entries in the order \<^verbatim>\<open>Object.entries\<close> yields them; a number
  is a finite value or \<^verbatim>\<open>NaN\<close>. Strings are ASCII text (\<^typ>\<open>char list\<close>); property names
  are ordinary names.
\<close>

datatype jsnum = NaN | Fin rat

datatype jsval =
    JUndefined
  | JNull
  | JBool bool
  | JNum jsnum
  | JStr string
  | JArr "jsval list"
  | JObj "(string \<times> jsval) list"

datatype error = TypeError | SyntaxError | RangeError

text \<open>\<^verbatim>\<open>!v\<close> is true exactly for the falsy values.\<close>

fun truthy :: "jsval \<Rightarrow> bool" where
  "truthy JUndefined = False"
| "truthy JNull = False"
| "truthy (JBool b) = b"
| "truthy (JNum NaN) = False"
| "truthy (JNum (Fin q)) = (q \<noteq> 0)"
| "truthy (JStr s) = (s \<noteq> [])"
| "truthy (JArr xs) = True"
| "truthy (JObj es) = True"

text \<open>\<^verbatim>\<open>xs[i]\<close> on an array: \<^verbatim>\<open>undefined\<close> beyond the end.\<close>

definition at_index :: "jsval list \<Rightarrow> nat \<Rightarrow> jsval" where
  "at_index xs i = (if i < length xs then xs ! i else JUndefined)"

text \<open>Decimal rendering of an array index inside a template literal.\<close>

definition digit_char :: "nat \<Rightarrow> char" where
  "digit_char d = char_of (48 + d mod 10)"

function show_nat :: "nat \<Rightarrow> string" where
  "show_nat n = (if n < 10 then [digit_char n] else show_nat (n div 10) @ [digit_char n])"
  by pat_completeness auto
termination
  by (relation "measure id") auto

declare show_nat.simps [simp del]

text \<open>\<^verbatim>\<open>s.split('.')\<close>: never empty, \<^verbatim>\<open>''.split('.')\<close> is \<^verbatim>\<open>['']\<close>.\<close>

fun split_on :: "char \<Rightarrow> string \<Rightarrow> string list" where
  "split_on c [] = [[]]"
| "split_on c (x # xs) =
     (if x = c then [] # split_on c xs
      else (case split_on c xs of [] \<Rightarrow> [[x]] | w # ws \<Rightarrow> (x # w) # ws))"

section \<open>logComparator.js\<close>

subsection \<open>The host: RegExp, deep-diff and the configuration file\<close>

text \<open>
  Three things the comparator uses are not part of it and are parameters of the model:
  the \<^verbatim>\<open>RegExp\<close> constructor applied to a user-supplied pattern (it throws a SyntaxError
  on an unparseable pattern, and otherwise gives a regex, of which only \<^verbatim>\<open>test\<close> is used),
  the \<^verbatim>\<open>diff\<close> function of the deep-diff package (it returns \<^verbatim>\<open>undefined\<close> when there is
  no difference) and the outcome of \<^verbatim>\<open>loadDefaultIgnoreFields\<close>, which reads a file.
\<close>

type_synonym regex = "string \<Rightarrow> bool"

datatype pelem = Key string | Idx nat

datatype diffkind = KindN | KindD | KindE | KindA

datatype rawdiff =
  RawDiff (d_kind: diffkind) (d_path: "pelem list option") (d_lhs: jsval) (d_rhs: jsval)
          (d_index: "nat option") (d_item: "rawdiff option")

record host =
  RegExp :: "string \<Rightarrow> error + regex"
  deepDiff :: "jsval \<Rightarrow> jsval \<Rightarrow> rawdiff list option"
  defaultIgnoreFields :: "string list"
  defaultIgnorePatterns :: "string list"

subsection \<open>shouldIgnoreField\<close>

text \<open>The loop over \<^verbatim>\<open>ignorePatterns\<close>; the \<^verbatim>\<open>catch\<close> branch skips a pattern that does not compile.\<close>

fun matchesAnyPattern :: "host \<Rightarrow> string \<Rightarrow> string list \<Rightarrow> string list \<Rightarrow> bool" where
  "matchesAnyPattern h fieldPath pathParts [] = False"
| "matchesAnyPattern h fieldPath pathParts (pattern # rest) =
     (case RegExp h pattern of
        Inl e \<Rightarrow> matchesAnyPattern h fieldPath pathParts rest
      | Inr regex \<Rightarrow>
          if regex fieldPath \<or> list_ex regex pathParts then True
          else matchesAnyPattern h fieldPath pathParts rest)"

definition shouldIgnoreField :: "host \<Rightarrow> string \<Rightarrow> string list \<Rightarrow> string list \<Rightarrow> bool" where
  "shouldIgnoreField h fieldPath ignoreFields ignorePatterns =
     (if List.member ignoreFields fieldPath then True
      else let pathParts = split_on CHR ''.'' fieldPath in
        if list_ex (\<lambda>part. List.member ignoreFields part) pathParts then True
        else matchesAnyPattern h fieldPath pathParts ignorePatterns)"

subsection \<open>removeIgnoredFields\<close>

definition elemPath :: "string \<Rightarrow> nat \<Rightarrow> string" where
  "elemPath parentPath i = parentPath @ ''['' @ show_nat i @ '']''"

definition fieldPath :: "string \<Rightarrow> string \<Rightarrow> string" where
  "fieldPath parentPath k = (if parentPath \<noteq> [] then parentPath @ ''.'' @ k else k)"

text \<open>
  The copy of an object is built by the assignments \<^verbatim>\<open>result[key] = ...\<close>, one for each own
  entry that is not excluded. Such an assignment adds an own entry to the copy, except for
  the key \<^verbatim>\<open>__proto__\<close>: there it reaches the setter that every object literal inherits,
  which sets the prototype of the copy and adds no entry, so that the copy has no own entry
  of that name (the own entries are all that \<^verbatim>\<open>Object.entries\<close> and deep-diff enumerate).
\<close>

definition assignField :: "string \<Rightarrow> jsval \<Rightarrow> (string \<times> jsval) list \<Rightarrow> (string \<times> jsval) list" where
  "assignField k v later = (if k = ''__proto__'' then later else (k, v) # later)"

fun removeIgnoredFields :: "host \<Rightarrow> jsval \<Rightarrow> string list \<Rightarrow> string list \<Rightarrow> string \<Rightarrow> jsval"
  and removeFromItems :: "host \<Rightarrow> jsval list \<Rightarrow> nat \<Rightarrow> string list \<Rightarrow> string list \<Rightarrow> string \<Rightarrow> jsval list"
  and removeFromEntries :: "host \<Rightarrow> (string \<times> jsval) list \<Rightarrow> string list \<Rightarrow> string list \<Rightarrow> string \<Rightarrow> (string \<times> jsval) list"
where
  "removeIgnoredFields h (JArr items) fs ps parentPath = JArr (removeFromItems h items 0 fs ps parentPath)"
| "removeIgnoredFields h (JObj entries) fs ps parentPath = JObj (removeFromEntries h entries fs ps parentPath)"
| "removeIgnoredFields h JUndefined fs ps parentPath = JUndefined"
| "removeIgnoredFields h JNull fs ps parentPath = JNull"
| "removeIgnoredFields h (JBool b) fs ps parentPath = JBool b"
| "removeIgnoredFields h (JNum n) fs ps parentPath = JNum n"
| "removeIgnoredFields h (JStr s) fs ps parentPath = JStr s"
| "removeFromItems h [] i fs ps parentPath = []"
| "removeFromItems h (item # items) i fs ps parentPath =
     removeIgnoredFields h item fs ps (elemPath parentPath i)
       # removeFromItems h items (Suc i) fs ps parentPath"
| "removeFromEntries h [] fs ps parentPath = []"
| "removeFromEntries h ((k, v) # entries) fs ps parentPath =
     (let fullPath = fieldPath parentPath k in
      if \<not> shouldIgnoreField h fullPath fs ps
      then assignField k (removeIgnoredFields h v fs ps fullPath)
             (removeFromEntries h entries fs ps parentPath)
      else removeFromEntries h entries fs ps parentPath)"

subsection \<open>pathToString and compareLogEntries\<close>

fun pathPiece :: "nat \<Rightarrow> pelem \<Rightarrow> string" where
  "pathPiece i (Idx p) = ''['' @ show_nat p @ '']''"
| "pathPiece i (Key p) = (if i = 0 then p else ''.'' @ p)"

definition pathToString :: "pelem list option \<Rightarrow> string" where
  "pathToString pathArray =
     (case pathArray of
        None \<Rightarrow> []
      | Some ps \<Rightarrow> concat (map (\<lambda>(i, p). pathPiece i p) (enumerate 0 ps)))"

record diffentry =
  kind :: diffkind
  path :: string
  blueValue :: jsval
  greenValue :: jsval
  index :: "nat option"
  item :: "rawdiff option"

record comparison =
  hasDifferences :: bool
  differences :: "diffentry list"

definition toDiffEntry :: "rawdiff \<Rightarrow> diffentry" where
  "toDiffEntry d =
     \<lparr> kind = d_kind d, path = pathToString (d_path d), blueValue = d_lhs d,
       greenValue = d_rhs d, index = d_index d, item = d_item d \<rparr>"

definition compareLogEntries :: "host \<Rightarrow> jsval \<Rightarrow> jsval \<Rightarrow> string list \<Rightarrow> string list \<Rightarrow> comparison" where
  "compareLogEntries h blueLog greenLog ignoreFields ignorePatterns =
     (let filteredBlue = removeIgnoredFields h blueLog ignoreFields ignorePatterns [];
          filteredGreen = removeIgnoredFields h greenLog ignoreFields ignorePatterns [];
          diffs = (case deepDiff h filteredBlue filteredGreen of None \<Rightarrow> [] | Some ds \<Rightarrow> ds)
      in \<lparr> hasDifferences = (length diffs > 0), differences = map toDiffEntry diffs \<rparr>)"

subsection \<open>compareWorkflowLogs\<close>

record options =
  opt_ignoreFields :: "string list option"
  opt_ignorePatterns :: "string list option"

record summary =
  blueLogCount :: nat
  greenLogCount :: nat
  matchedCount :: nat
  mismatchedCount :: nat
  blueOnlyCount :: nat
  greenOnlyCount :: nat

record logDifference =
  ld_index :: nat
  ld_blueLog :: jsval
  ld_greenLog :: jsval
  ld_differences :: "diffentry list"

record report =
  summary :: summary
  countMismatch :: bool
  logDifferences :: "logDifference list"
  blueOnlyLogs :: "(nat \<times> jsval) list"
  greenOnlyLogs :: "(nat \<times> jsval) list"
  ignoredFields :: "string list"
  ignoredPatterns :: "string list"

text \<open>One iteration of the \<^verbatim>\<open>for\<close> loop, at index \<open>i\<close>.\<close>

definition compareAt ::
  "host \<Rightarrow> jsval list \<Rightarrow> jsval list \<Rightarrow> string list \<Rightarrow> string list \<Rightarrow> report \<Rightarrow> nat \<Rightarrow> report" where
  "compareAt h blueLogs greenLogs ignoreFields ignorePatterns r i =
     (let blueLog = at_index blueLogs i; greenLog = at_index greenLogs i in
      if \<not> truthy blueLog then
        r\<lparr> greenOnlyLogs := greenOnlyLogs r @ [(i, greenLog)],
           summary := (summary r)\<lparr> greenOnlyCount := greenOnlyCount (summary r) + 1 \<rparr> \<rparr>
      else if \<not> truthy greenLog then
        r\<lparr> blueOnlyLogs := blueOnlyLogs r @ [(i, blueLog)],
           summary := (summary r)\<lparr> blueOnlyCount := blueOnlyCount (summary r) + 1 \<rparr> \<rparr>
      else
        let c = compareLogEntries h blueLog greenLog ignoreFields ignorePatterns in
        if hasDifferences c then
          r\<lparr> summary := (summary r)\<lparr> mismatchedCount := mismatchedCount (summary r) + 1 \<rparr>,
             logDifferences := logDifferences r @
               [\<lparr> ld_index = i,
                  ld_blueLog = removeIgnoredFields h blueLog ignoreFields ignorePatterns [],
                  ld_greenLog = removeIgnoredFields h greenLog ignoreFields ignorePatterns [],
                  ld_differences = differences c \<rparr>] \<rparr>
        else
          r\<lparr> summary := (summary r)\<lparr> matchedCount := matchedCount (summary r) + 1 \<rparr> \<rparr>)"

definition compareWorkflowLogs :: "host \<Rightarrow> jsval list \<Rightarrow> jsval list \<Rightarrow> options \<Rightarrow> report" where
  "compareWorkflowLogs h blueLogs greenLogs opts =
     (let ignoreFields = defaultIgnoreFields h @ (case opt_ignoreFields opts of None \<Rightarrow> [] | Some fs \<Rightarrow> fs);
          ignorePatterns = defaultIgnorePatterns h @ (case opt_ignorePatterns opts of None \<Rightarrow> [] | Some ps \<Rightarrow> ps);
          report0 =
            \<lparr> summary = \<lparr> blueLogCount = length blueLogs, greenLogCount = length greenLogs,
                          matchedCount = 0, mismatchedCount = 0, blueOnlyCount = 0, greenOnlyCount = 0 \<rparr>,
              countMismatch = (length blueLogs \<noteq> length greenLogs),
              logDifferences = [], blueOnlyLogs = [], greenOnlyLogs = [],
              ignoredFields = ignoreFields, ignoredPatterns = ignorePatterns \<rparr>;
          maxLength = max (length blueLogs) (length greenLogs)
      in foldl (compareAt h blueLogs greenLogs ignoreFields ignorePatterns) report0 [0 ..< maxLength])"

section \<open>Strings and regular expressions\<close>

subsection \<open>Characters and string methods\<close>

text \<open>
  Characters are ASCII. A character is its eight bits, lowest first; the classes are read
  off the bits: a letter has the five low bits between 1 and 26, upper case under the
  prefix 010 and lower case under 011.
\<close>

definition low5_letter :: "bool \<Rightarrow> bool \<Rightarrow> bool \<Rightarrow> bool \<Rightarrow> bool \<Rightarrow> bool" where
  "low5_letter b0 b1 b2 b3 b4 =
     ((b0 \<or> b1 \<or> b2 \<or> b3 \<or> b4) \<and> \<not> (b4 \<and> b3 \<and> (b2 \<or> (b1 \<and> b0))))"

definition is_upper :: "char \<Rightarrow> bool" where
  "is_upper c =
     (case c of Char b0 b1 b2 b3 b4 b5 b6 b7 \<Rightarrow> \<not> b7 \<and> b6 \<and> \<not> b5 \<and> low5_letter b0 b1 b2 b3 b4)"

definition is_lower :: "char \<Rightarrow> bool" where
  "is_lower c =
     (case c of Char b0 b1 b2 b3 b4 b5 b6 b7 \<Rightarrow> \<not> b7 \<and> b6 \<and> b5 \<and> low5_letter b0 b1 b2 b3 b4)"

definition is_digit :: "char \<Rightarrow> bool" where
  "is_digit c =
     (case c of Char b0 b1 b2 b3 b4 b5 b6 b7 \<Rightarrow> \<not> b7 \<and> \<not> b6 \<and> b5 \<and> b4 \<and> \<not> (b3 \<and> (b2 \<or> b1)))"

definition is_word :: "char \<Rightarrow> bool" where
  "is_word c = (is_upper c \<or> is_lower c \<or> is_digit c \<or> c = CHR ''_'')"

text \<open>White space: the space, and the control characters 9 to 13.\<close>

definition is_space :: "char \<Rightarrow> bool" where
  "is_space c =
     (case c of Char b0 b1 b2 b3 b4 b5 b6 b7 \<Rightarrow>
        \<not> b7 \<and> \<not> b6 \<and> \<not> b4 \<and>
        ((b5 \<and> \<not> b3 \<and> \<not> b2 \<and> \<not> b1 \<and> \<not> b0) \<or>
         (\<not> b5 \<and> b3 \<and> \<not> (b2 \<and> b1) \<and> (b2 \<or> b1 \<or> b0))))"

text \<open>Line terminators: line feed and carriage return.\<close>

definition is_newline :: "char \<Rightarrow> bool" where
  "is_newline c = (c = CHR 0x0A \<or> c = CHR 0x0D)"

definition lower_char :: "char \<Rightarrow> char" where
  "lower_char c =
     (case c of Char b0 b1 b2 b3 b4 b5 b6 b7 \<Rightarrow>
        if \<not> b7 \<and> b6 \<and> \<not> b5 \<and> low5_letter b0 b1 b2 b3 b4 then Char b0 b1 b2 b3 b4 True b6 b7 else c)"

definition upper_char :: "char \<Rightarrow> char" where
  "upper_char c =
     (case c of Char b0 b1 b2 b3 b4 b5 b6 b7 \<Rightarrow>
        if \<not> b7 \<and> b6 \<and> b5 \<and> low5_letter b0 b1 b2 b3 b4 then Char b0 b1 b2 b3 b4 False b6 b7 else c)"

definition toLowerCase :: "string \<Rightarrow> string" where
  "toLowerCase s = map lower_char s"

definition toUpperCase :: "string \<Rightarrow> string" where
  "toUpperCase s = map upper_char s"

definition trim :: "string \<Rightarrow> string" where
  "trim s = rev (dropWhile is_space (rev (dropWhile is_space s)))"

fun startsWith :: "string \<Rightarrow> string \<Rightarrow> bool" where
  "startsWith s [] = True"
| "startsWith [] (k # ks) = False"
| "startsWith (x # xs) (k # ks) = (x = k \<and> startsWith xs ks)"

text \<open>\<^verbatim>\<open>s.includes(k)\<close>: \<open>k\<close> occurs in \<open>s\<close> as a contiguous substring.\<close>

fun includes_str :: "string \<Rightarrow> string \<Rightarrow> bool" where
  "includes_str [] k = (k = [])"
| "includes_str (x # xs) k = (startsWith (x # xs) k \<or> includes_str xs k)"

subsection \<open>A backtracking matcher\<close>

text \<open>
  The regular expressions of the analyzer are regex literals; they are written here as
  syntax trees, one constructor per construct of the pattern language that the literals
  use. \<open>Star True\<close> is the greedy \<^verbatim>\<open>*\<close>, \<open>Star False\<close> the lazy \<^verbatim>\<open>*?\<close>; \<open>Grp n\<close> is the
  \<open>n\<close>-th capturing group; \<open>Bol\<close>, \<open>Eol\<close> and \<open>WordB\<close> are \<^verbatim>\<open>^\<close>, \<^verbatim>\<open>$\<close> and the word boundary.
\<close>

datatype citem = COne char | CUpper | CLower | CDigit | CSpace | CWord

datatype re =
    Chr char
  | Cls bool "citem list"
  | Dot
  | Bol
  | Eol
  | WordB
  | Eps
  | Seq re re
  | Alt re re
  | Star bool re
  | Grp nat re

text \<open>
  A matcher state: the character before the current position (if any), the rest of the
  input from the current position, and the captures made so far (latest first).
\<close>

type_synonym mstate = "char option \<times> string \<times> (nat \<times> string) list"

text \<open>With the \<^verbatim>\<open>i\<close> flag (\<open>ci\<close>) characters are compared after canonicalisation to upper case.\<close>

definition chr_eq :: "bool \<Rightarrow> char \<Rightarrow> char \<Rightarrow> bool" where
  "chr_eq ci c x = (if ci then upper_char c = upper_char x else c = x)"

text \<open>
  The items of a character class: a single character, the ranges \<^verbatim>\<open>A-Z\<close>, \<^verbatim>\<open>a-z\<close> and \<^verbatim>\<open>0-9\<close>
  (the only ranges in the literals; \<^verbatim>\<open>\d\<close> is \<^verbatim>\<open>0-9\<close>), \<^verbatim>\<open>\s\<close> and \<^verbatim>\<open>\w\<close>.
\<close>

fun in_item :: "bool \<Rightarrow> char \<Rightarrow> citem \<Rightarrow> bool" where
  "in_item ci x (COne c) = chr_eq ci c x"
| "in_item ci x CUpper = (is_upper x \<or> (ci \<and> is_lower x))"
| "in_item ci x CLower = (is_lower x \<or> (ci \<and> is_upper x))"
| "in_item ci x CDigit = is_digit x"
| "in_item ci x CSpace = is_space x"
| "in_item ci x CWord = is_word x"

definition word_before :: "char option \<Rightarrow> bool" where
  "word_before p = (case p of None \<Rightarrow> False | Some c \<Rightarrow> is_word c)"

definition word_after :: "string \<Rightarrow> bool" where
  "word_after s = (case s of [] \<Rightarrow> False | c # _ \<Rightarrow> is_word c)"

definition shorter :: "mstate \<Rightarrow> mstate \<Rightarrow> bool" where
  "shorter st' st = (length (fst (snd st')) < length (fst (snd st)))"

text \<open>
  \<open>ends ci r st\<close> lists the states in which a match of \<open>r\<close> started in \<open>st\<close> can end, in the
  order in which a backtracking matcher tries them: the head of the list is the match
  that \<^verbatim>\<open>exec\<close> reports. An iteration of a star that consumes nothing is not repeated.
\<close>

function ends :: "bool \<Rightarrow> re \<Rightarrow> mstate \<Rightarrow> mstate list" where
  "ends ci (Chr c) st =
     (case fst (snd st) of [] \<Rightarrow> []
      | x # xs \<Rightarrow> if chr_eq ci c x then [(Some x, xs, snd (snd st))] else [])"
| "ends ci (Cls neg items) st =
     (case fst (snd st) of [] \<Rightarrow> []
      | x # xs \<Rightarrow> if list_ex (in_item ci x) items \<noteq> neg then [(Some x, xs, snd (snd st))] else [])"
| "ends ci Dot st =
     (case fst (snd st) of [] \<Rightarrow> []
      | x # xs \<Rightarrow> if \<not> is_newline x then [(Some x, xs, snd (snd st))] else [])"
| "ends ci Bol st = (if fst st = None then [st] else [])"
| "ends ci Eol st = (if fst (snd st) = [] then [st] else [])"
| "ends ci WordB st = (if word_before (fst st) \<noteq> word_after (fst (snd st)) then [st] else [])"
| "ends ci Eps st = [st]"
| "ends ci (Seq a b) st = concat (map (ends ci b) (ends ci a st))"
| "ends ci (Alt a b) st = ends ci a st @ ends ci b st"
| "ends ci (Star greedy a) st =
     (let more = concat (map (ends ci (Star greedy a)) (filter (\<lambda>st'. shorter st' st) (ends ci a st)))
      in if greedy then more @ [st] else st # more)"
| "ends ci (Grp n a) st =
     map (\<lambda>st'. (fst st', fst (snd st'),
                  (n, take (length (fst (snd st)) - length (fst (snd st'))) (fst (snd st))) # snd (snd st')))
         (ends ci a st)"
  by pat_completeness auto
termination
  by (relation "measures [\<lambda>(ci, r, st). size r, \<lambda>(ci, r, st). length (fst (snd st))]")
     (auto simp: shorter_def)

text \<open>The positions at which a match may start, from the current one to the end of the input.\<close>

fun suffixes :: "char option \<Rightarrow> string \<Rightarrow> (char option \<times> string) list" where
  "suffixes p [] = [(p, [])]"
| "suffixes p (x # xs) = (p, x # xs) # suffixes (Some x) xs"

text \<open>\<^verbatim>\<open>regex.test(s)\<close> for a regex without the \<^verbatim>\<open>g\<close> flag.\<close>

definition re_test :: "bool \<Rightarrow> re \<Rightarrow> string \<Rightarrow> bool" where
  "re_test ci r s = list_ex (\<lambda>(p, t). ends ci r (p, t, []) \<noteq> []) (suffixes None s)"

text \<open>The leftmost match from the current position on: the state in which it ends.\<close>

fun first_match :: "bool \<Rightarrow> re \<Rightarrow> (char option \<times> string) list \<Rightarrow> mstate option" where
  "first_match ci r [] = None"
| "first_match ci r ((p, t) # rest) =
     (case ends ci r (p, t, []) of [] \<Rightarrow> first_match ci r rest | st # _ \<Rightarrow> Some st)"

definition capture :: "nat \<Rightarrow> (nat \<times> string) list \<Rightarrow> string" where
  "capture n caps = (case map_of caps n of None \<Rightarrow> [] | Some s \<Rightarrow> s)"

text \<open>Shorthands for writing the patterns.\<close>

fun lit :: "string \<Rightarrow> re" where
  "lit [] = Eps"
| "lit [c] = Chr c"
| "lit (c # cs) = Seq (Chr c) (lit cs)"

fun seqs :: "re list \<Rightarrow> re" where
  "seqs [] = Eps"
| "seqs [r] = r"
| "seqs (r # rs) = Seq r (seqs rs)"

fun alts :: "re list \<Rightarrow> re" where
  "alts [] = Cls False []"
| "alts [r] = r"
| "alts (r # rs) = Alt r (alts rs)"

definition many :: "re \<Rightarrow> re" where
  "many r = Star True r"

definition many1 :: "re \<Rightarrow> re" where
  "many1 r = Seq r (Star True r)"

definition opt :: "re \<Rightarrow> re" where
  "opt r = Alt r Eps"

definition sp :: re where
  "sp = Cls False [CSpace]"

definition wd :: re where
  "wd = Cls False [CWord]"

definition dg :: re where
  "dg = Cls False [CDigit]"

definition letter :: re where
  "letter = Cls False [CUpper, CLower]"

definition nameChar :: re where
  "nameChar = Cls False [CUpper, CLower, CDigit, COne (CHR ''_'')]"

definition nameCharSp :: re where
  "nameCharSp = Cls False [CUpper, CLower, CDigit, COne (CHR ''_''), COne (CHR '' '')]"

section \<open>Numbers\<close>

text \<open>
  A JavaScript number is an IEEE 754 binary64 value. Every finite one is a rational, and
  the result of an arithmetic operation is the exact result rounded to 53 significant
  bits, ties to even: \<open>fl\<close>. The magnitudes that occur in the scorer are far inside the
  exponent range of the format, so overflow and subnormal numbers are left out.
\<close>

function bexp_hi :: "rat \<Rightarrow> int" where
  "bexp_hi x = (if x < 2 then 0 else 1 + bexp_hi (x / 2))"
  by pat_completeness auto
termination
proof (relation "measure (\<lambda>x. nat \<lfloor>x\<rfloor>)")
  show "wf (measure (\<lambda>x::rat. nat \<lfloor>x\<rfloor>))" by simp
next
  fix x :: rat
  assume a: "\<not> x < 2"
  have "x / 2 \<le> x - 1" using a by simp
  also have "\<dots> < of_int \<lfloor>x\<rfloor>" by linarith
  finally have "\<lfloor>x / 2\<rfloor> < \<lfloor>x\<rfloor>" by (simp only: floor_less_iff)
  moreover have "0 < \<lfloor>x\<rfloor>" using a by (simp add: less_floor_iff) 
  ultimately show "(x / 2, x) \<in> measure (\<lambda>x. nat \<lfloor>x\<rfloor>)" by simp
qed

function bexp_lo :: "rat \<Rightarrow> int" where
  "bexp_lo x = (if x \<le> 0 \<or> 1 \<le> x then 0 else bexp_lo (2 * x) - 1)"
  by pat_completeness auto
termination
proof (relation "measure (\<lambda>x. nat \<lfloor>1 / x\<rfloor>)")
  show "wf (measure (\<lambda>x::rat. nat \<lfloor>1 / x\<rfloor>))" by simp
next
  fix x :: rat
  assume a: "\<not> (x \<le> 0 \<or> 1 \<le> x)"
  define y where "y = 1 / x"
  have y: "1 < y" using a by (simp add: y_def)
  have "y / 2 < of_int \<lfloor>y\<rfloor>"
  proof (cases "y < 2")
    case True
    then have "\<lfloor>y\<rfloor> = 1" using y by (simp add: floor_eq_iff)
    then show ?thesis using True by simp
  next
    case False
    then have "y / 2 \<le> y - 1" by simp
    also have "\<dots> < of_int \<lfloor>y\<rfloor>" by linarith
    finally show ?thesis .
  qed
  then have lt: "\<lfloor>y / 2\<rfloor> < \<lfloor>y\<rfloor>" by (simp only: floor_less_iff)
  have eq: "1 / (2 * x) = y / 2" by (simp add: y_def)
  have pos: "0 < \<lfloor>y\<rfloor>" using y by (simp add: less_floor_iff)
  have "nat \<lfloor>1 / (2 * x)\<rfloor> < nat \<lfloor>y\<rfloor>"
    unfolding eq zless_nat_conj using lt pos by simp
  then show "(2 * x, x) \<in> measure (\<lambda>x. nat \<lfloor>1 / x\<rfloor>)"
    unfolding in_measure y_def .
qed

declare bexp_hi.simps [simp del] bexp_lo.simps [simp del]

text \<open>The binary exponent of a positive number: \<open>2 powi bexp x \<le> x < 2 powi (bexp x + 1)\<close>.\<close>

definition bexp :: "rat \<Rightarrow> int" where
  "bexp x = (if 1 \<le> x then bexp_hi x else bexp_lo x)"

definition round_half_even :: "rat \<Rightarrow> int" where
  "round_half_even q =
     (let f = \<lfloor>q\<rfloor>; d = q - of_int f in
      if d < 1 / 2 then f else if 1 / 2 < d then f + 1 else if even f then f else f + 1)"

definition fl :: "rat \<Rightarrow> rat" where
  "fl x =
     (if x = 0 then 0
      else let u = 2 powi (bexp \<bar>x\<bar> - 52)
           in sgn x * of_int (round_half_even (\<bar>x\<bar> / u)) * u)"

text \<open>Arithmetic and comparison as the scorer uses them; \<^verbatim>\<open>NaN\<close> absorbs and compares false.\<close>

fun num_add :: "jsnum \<Rightarrow> rat \<Rightarrow> jsnum" where
  "num_add NaN b = NaN"
| "num_add (Fin a) b = Fin (fl (a + b))"

fun num_mul :: "jsnum \<Rightarrow> rat \<Rightarrow> jsnum" where
  "num_mul NaN b = NaN"
| "num_mul (Fin a) b = Fin (fl (a * b))"

fun num_ge :: "jsnum \<Rightarrow> rat \<Rightarrow> bool" where
  "num_ge NaN b = False"
| "num_ge (Fin a) b = (b \<le> a)"

text \<open>\<^verbatim>\<open>Math.round\<close>: the nearest integer, a tie going up.\<close>

fun Math_round :: "jsnum \<Rightarrow> jsnum" where
  "Math_round NaN = NaN"
| "Math_round (Fin a) = Fin (of_int \<lfloor>a + 1 / 2\<rfloor>)"

section \<open>rag/ragAnalyzer.js: the error scorer\<close>

subsection \<open>The pattern catalog\<close>

text \<open>
  \<^verbatim>\<open>LOG_LEVEL_SEVERITY\<close>: the own entries of the table. Indexing the table with a name reaches
  the properties that every object inherits as well (\<^verbatim>\<open>constructor\<close>, \<^verbatim>\<open>__proto__\<close>, ...):
  such a value is truthy and has neither a \<^verbatim>\<open>score\<close> nor a \<^verbatim>\<open>category\<close>.
\<close>

definition LOG_LEVEL_SEVERITY :: "(string \<times> nat \<times> string) list" where
  "LOG_LEVEL_SEVERITY = [
    (''fatal'', 100, ''FATAL''),
    (''critical'', 100, ''CRITICAL''),
    (''emergency'', 100, ''EMERGENCY''),
    (''panic'', 100, ''PANIC''),
    (''error'', 80, ''ERROR''),
    (''err'', 80, ''ERROR''),
    (''severe'', 80, ''SEVERE''),
    (''alert'', 75, ''ALERT''),
    (''warn'', 50, ''WARNING''),
    (''warning'', 50, ''WARNING''),
    (''caution'', 45, ''WARNING''),
    (''notice'', 20, ''NOTICE''),
    (''notic'', 20, ''NOTICE'')
  ]"

definition inheritedNames :: "string list" where
  "inheritedNames =
     [''constructor'', ''__defineGetter__'', ''__defineSetter__'', ''hasOwnProperty'',
      ''__lookupGetter__'', ''__lookupSetter__'', ''isPrototypeOf'', ''propertyIsEnumerable'',
      ''toString'', ''valueOf'', ''__proto__'', ''toLocaleString'']"

datatype levelInfo = OwnLevel nat string | InheritedValue

definition levelSeverity :: "string \<Rightarrow> levelInfo option" where
  "levelSeverity name =
     (case map_of LOG_LEVEL_SEVERITY name of
        Some (s, c) \<Rightarrow> Some (OwnLevel s c)
      | None \<Rightarrow> if List.member inheritedNames name then Some InheritedValue else None)"

text \<open>
  \<^verbatim>\<open>NEGATIVE_ACTION_KEYWORDS\<close>, as \<^verbatim>\<open>Object.entries\<close> lists it. The literal names \<^verbatim>\<open>refused\<close>
  twice (15, then 12): the entry keeps its first place and has the later value.
\<close>

definition NEGATIVE_ACTION_KEYWORDS :: "(string \<times> nat) list" where
  "NEGATIVE_ACTION_KEYWORDS = [
    (''failed'', 15),
    (''failure'', 15),
    (''fail'', 12),
    (''failing'', 12),
    (''error'', 15),
    (''errors'', 15),
    (''errored'', 15),
    (''exception'', 20),
    (''exceptions'', 20),
    (''threw'', 15),
    (''thrown'', 15),
    (''throw'', 12),
    (''unable'', 12),
    (''cannot'', 12),
    ((''can'' @ [CHR 0x27] @ ''t''), 12),
    ((''couldn'' @ [CHR 0x27] @ ''t''), 12),
    (''could not'', 12),
    ((''won'' @ [CHR 0x27] @ ''t''), 10),
    ((''wouldn'' @ [CHR 0x27] @ ''t''), 10),
    (''would not'', 10),
    (''should not'', 8),
    (''must not'', 10),
    (''missing'', 12),
    (''absent'', 10),
    (''not found'', 15),
    (''notfound'', 15),
    (''no such'', 12),
    (''does not exist'', 12),
    ((''doesn'' @ [CHR 0x27] @ ''t exist''), 12),
    (''nonexistent'', 10),
    (''not set'', 12),
    (''unset'', 10),
    (''not defined'', 12),
    (''not available'', 12),
    (''unavailable'', 12),
    (''undefined'', 18),
    (''null'', 15),
    (''nil'', 12),
    (''none'', 10),
    (''n/a'', 12),
    (''empty'', 10),
    (''blank'', 8),
    (''invalid'', 12),
    (''malformed'', 12),
    (''corrupt'', 15),
    (''corrupted'', 15),
    (''broken'', 12),
    (''bad'', 8),
    (''illegal'', 12),
    (''incorrect'', 10),
    (''wrong'', 8),
    (''mismatch'', 10),
    (''inconsistent'', 12),
    (''timeout'', 15),
    (''timed out'', 15),
    (''timedout'', 15),
    (''expired'', 10),
    (''expiration'', 8),
    (''deadline exceeded'', 15),
    (''refused'', 12),
    (''refused connection'', 18),
    (''connection refused'', 18),
    (''disconnected'', 12),
    (''disconnect'', 10),
    (''unreachable'', 15),
    (''connection failed'', 18),
    (''connection error'', 18),
    (''network error'', 15),
    (''connection lost'', 15),
    (''connection reset'', 12),
    (''connection closed'', 10),
    (''denied'', 12),
    (''forbidden'', 12),
    (''unauthorized'', 12),
    (''unauthenticated'', 12),
    (''permission denied'', 15),
    (''access denied'', 15),
    (''not permitted'', 12),
    (''not allowed'', 10),
    (''crash'', 20),
    (''crashed'', 20),
    (''abort'', 15),
    (''aborted'', 15),
    (''terminated'', 12),
    (''killed'', 12),
    (''segfault'', 25),
    (''segmentation fault'', 25),
    (''core dump'', 20),
    (''panic'', 20),
    (''fatal'', 20),
    (''retry'', 8),
    (''retrying'', 8),
    (''retried'', 8),
    (''recovering'', 8),
    (''recovery'', 8),
    (''fallback'', 8),
    (''degraded'', 10),
    (''rejected'', 12),
    (''reject'', 10),
    (''declined'', 10),
    (''unsuccessful'', 15),
    (''incomplete'', 10),
    (''partial'', 8),
    (''skipped'', 8),
    (''ignored'', 6),
    (''dropped'', 12),
    (''lost'', 12),
    (''blocked'', 10),
    (''stuck'', 10),
    (''hung'', 12),
    (''frozen'', 12),
    (''unresponsive'', 15)
  ]"

definition NULL_VALUE_INDICATORS :: "string list" where
  "NULL_VALUE_INDICATORS =
     [''undefined'', ''null'', ''nil'', ''none'', ''empty'', ''n/a'', ''na'', ''not available'',
      ''not set'', ''unset'', ''missing'', ''absent'', ''void'', ''blank'', [CHR 0x22, CHR 0x22], [CHR 0x27, CHR 0x27],
      ''[]'', ''{}'', ''<null>'', ''<undefined>'', ''<empty>'', ''<none>'', ''[null]'',
      ''[undefined]'', ''(null)'', ''(undefined)'', ''NaN'', ''unknown'', ''not defined'']"

definition FAILURE_STATUS_INDICATORS :: "string list" where
  "FAILURE_STATUS_INDICATORS =
     [''failed'', ''failure'', ''error'', ''err'', ''unsuccessful'', ''rejected'', ''denied'',
      ''refused'', ''timeout'', ''timed out'', ''expired'', ''invalid'', ''broken'', ''corrupt'',
      ''disconnected'', ''unreachable'', ''unavailable'', ''down'', ''offline'', ''stopped'',
      ''terminated'', ''aborted'', ''crashed'', ''killed'', ''dead'', ''exception'', ''fault'',
      ''bad'', ''wrong'', ''incorrect'', ''mismatch'', ''conflict'', ''blocked'', ''stuck'',
      ''hung'', ''frozen'', ''unresponsive'', ''skipped'', ''ignored'', ''dropped'', ''lost'']"

text \<open>
  \<^verbatim>\<open>buildFieldValuePatterns\<close> escapes every metacharacter of an indicator before joining
  the indicators with \<^verbatim>\<open>|\<close>, so each indicator stands for itself in the alternation.
\<close>

definition closer :: re where
  "closer = alts [Eol, Cls False [COne (CHR '',''), COne (CHR '';''), COne (CHR '']''), COne (CHR '')''), COne (CHR ''}'')]]"

definition buildFieldValuePatterns :: "(re \<times> nat \<times> string) list" where
  "buildFieldValuePatterns =
     (let nullValueRegex = alts (map lit NULL_VALUE_INDICATORS);
          failureRegex = alts (map lit FAILURE_STATUS_INDICATORS) in
      [(seqs [letter, many nameCharSp, Chr (CHR '':''), many sp, nullValueRegex, many sp, closer], 28, ''NULL_VALUE_ASSIGNMENT''),
       (seqs [letter, many nameChar, many sp, Chr (CHR ''=''), many sp, nullValueRegex, many sp, closer], 28, ''NULL_VALUE_ASSIGNMENT''),
       (seqs [WordB, alts [lit ''is'', lit ''was'', lit ''are'', lit ''were'', lit ''became'', lit ''becomes''],
              many1 sp, nullValueRegex, WordB], 25, ''NULL_STATE''),
       (seqs [WordB, alts [lit ''got'', lit ''received'', lit ''returned'', lit ''yielded'', lit ''produced'', lit ''gave'', lit ''gives''],
              many1 sp, nullValueRegex, WordB], 25, ''NULL_RETURN''),
       (seqs [letter, many nameCharSp, Chr (CHR '':''), many sp, failureRegex, many sp, closer], 25, ''STATUS_FAILURE''),
       (seqs [letter, many nameChar, many sp, Chr (CHR ''=''), many sp, failureRegex, many sp, closer], 25, ''STATUS_FAILURE'')])"

text \<open>\<^verbatim>\<open>STRUCTURAL_PATTERNS\<close>; every regex carries the \<^verbatim>\<open>i\<close> flag.\<close>

definition STRUCTURAL_PATTERNS :: "(re \<times> nat \<times> string) list" where
  "STRUCTURAL_PATTERNS = [
    (seqs [Chr (CHR ''-''), opt (Chr (CHR ''>'')), many sp, alts [lit ''undefined'', lit ''null'', lit ''nil'', lit ''none'', lit ''false'', lit ''empty'', Chr (CHR ''0''), seqs [Chr (CHR 0x22), Chr (CHR 0x22)], seqs [Chr (CHR 0x27), Chr (CHR 0x27)], lit ''[]'', lit ''{}'', lit ''N/A''], many sp, alts [Eol, Cls False [COne (CHR '',''), COne (CHR '';'')]]], 28, ''NULL_STATE''),
    (seqs [lit ''=>'', many sp, alts [lit ''undefined'', lit ''null'', lit ''nil'', lit ''none'', lit ''false'', lit ''empty'', lit ''N/A''], many sp, alts [Eol, Cls False [COne (CHR '',''), COne (CHR '';'')]]], 28, ''NULL_STATE''),
    (seqs [letter, many nameCharSp, Chr (CHR '':''), many sp, lit ''undefined'', many sp, alts [Eol, Cls False [COne (CHR '',''), COne (CHR '';''), COne (CHR '')''), COne (CHR '']''), COne (CHR ''}'')]]], 30, ''UNDEFINED_VALUE''),
    (seqs [letter, many nameCharSp, Chr (CHR '':''), many sp, lit ''null'', many sp, alts [Eol, Cls False [COne (CHR '',''), COne (CHR '';''), COne (CHR '')''), COne (CHR '']''), COne (CHR ''}'')]]], 28, ''NULL_VALUE''),
    (seqs [letter, many nameCharSp, Chr (CHR '':''), many sp, lit ''N/A'', many sp, alts [Eol, Cls False [COne (CHR '',''), COne (CHR '';''), COne (CHR '')''), COne (CHR '']''), COne (CHR ''}'')]]], 25, ''NOT_AVAILABLE''),
    (seqs [letter, many nameCharSp, Chr (CHR '':''), many sp, alts [lit ''empty'', lit ''none'', lit ''nil'', lit ''missing''], many sp, alts [Eol, Cls False [COne (CHR '',''), COne (CHR '';''), COne (CHR '')''), COne (CHR '']''), COne (CHR ''}'')]]], 25, ''EMPTY_VALUE''),
    (seqs [letter, many nameCharSp, Chr (CHR '':''), many sp, alts [lit ''failed'', lit ''failure'', lit ''error'', lit ''timeout''], many sp, alts [Eol, Cls False [COne (CHR '',''), COne (CHR '';''), COne (CHR '')''), COne (CHR '']''), COne (CHR ''}'')]]], 28, ''STATUS_FAILURE''),
    (seqs [letter, many nameChar, many sp, Chr (CHR ''=''), many sp, lit ''undefined'', WordB], 28, ''UNDEFINED_VALUE''),
    (seqs [letter, many nameChar, many sp, Chr (CHR ''=''), many sp, lit ''null'', WordB], 26, ''NULL_VALUE''),
    (seqs [letter, many nameChar, many sp, Chr (CHR ''=''), many sp, lit ''N/A'', WordB], 24, ''NOT_AVAILABLE''),
    (seqs [WordB, many1 wd, many1 sp, alts [lit ''is'', lit ''was'', lit ''are'', lit ''were''], many1 sp, alts [lit ''undefined'', lit ''null'', lit ''empty'', lit ''missing'', lit ''invalid'', lit ''unavailable''], WordB], 25, ''STATE_INVALID''),
    (seqs [lit ''returne'', opt (Chr (CHR ''d'')), many1 sp, alts [lit ''undefined'', lit ''null'', lit ''nil'', lit ''none'', lit ''nothing'', lit ''empty'', lit ''false'']], 25, ''NULL_RETURN''),
    (seqs [lit ''return'', opt (Chr (CHR ''s'')), many1 sp, alts [lit ''undefined'', lit ''null'', lit ''nil'', lit ''none'', lit ''nothing'', lit ''empty'', lit ''false'']], 25, ''NULL_RETURN''),
    (seqs [lit ''result'', many sp, opt (alts [lit ''is'', lit ''was'', Chr (CHR '':'')]), many sp, alts [lit ''undefined'', lit ''null'', lit ''empty'', lit ''none'', lit ''invalid'']], 25, ''NULL_RETURN''),
    (seqs [alts [lit ''got'', lit ''received'', seqs [lit ''yield'', opt (Chr (CHR ''s''))], seqs [lit ''give'', opt (Chr (CHR ''s''))], lit ''gave''], many1 sp, alts [lit ''undefined'', lit ''null'', lit ''empty'', lit ''nothing'', lit ''false'']], 24, ''NULL_RETURN''),
    (seqs [WordB, many1 wd, many1 sp, lit ''not'', many1 sp, lit ''found'', WordB], 22, ''NOT_FOUND''),
    (seqs [WordB, lit ''not'', many1 sp, lit ''found'', many sp, Cls False [COne (CHR '':''), COne (CHR ''-'')]], 24, ''NOT_FOUND''),
    (seqs [WordB, alts [lit ''could'', lit ''can''], opt (Chr (CHR ''n'')), opt (Chr (CHR 0x27)), opt (Chr (CHR ''t'')), many1 sp, alts [lit ''find'', lit ''locate'', lit ''get'', lit ''retrieve'', lit ''fetch'', lit ''load'', lit ''access''], WordB], 20, ''NOT_FOUND''),
    (seqs [WordB, alts [lit ''no'', lit ''zero'', Chr (CHR ''0'')], many1 sp, alts [seqs [lit ''result'', opt (Chr (CHR ''s''))], seqs [lit ''record'', opt (Chr (CHR ''s''))], seqs [lit ''row'', opt (Chr (CHR ''s''))], seqs [lit ''entrie'', opt (Chr (CHR ''s''))], seqs [lit ''item'', opt (Chr (CHR ''s''))], lit ''data''], many1 sp, alts [lit ''found'', lit ''returned'', lit ''available'']], 20, ''EMPTY_RESULT''),
    (seqs [WordB, lit ''does'', many sp, Chr (CHR ''n''), opt (Chr (CHR 0x27)), opt (Chr (CHR ''o'')), opt (Chr (CHR ''t'')), many1 sp, lit ''exist'', WordB], 22, ''NOT_FOUND''),
    (seqs [WordB, many1 wd, many1 sp, lit ''failed'', many sp, alts [lit ''to'', lit ''with'', Chr (CHR '':''), Eol]], 22, ''OPERATION_FAILED''),
    (seqs [WordB, lit ''failed'', many1 sp, lit ''to'', many1 sp, many1 wd], 22, ''OPERATION_FAILED''),
    (seqs [WordB, lit ''failure'', many1 sp, alts [lit ''in'', lit ''on'', lit ''at'', lit ''during'', lit ''while'', lit ''of''], WordB], 20, ''OPERATION_FAILED''),
    (seqs [WordB, alts [lit ''operation'', lit ''request'', lit ''call'', lit ''action'', lit ''process''], many1 sp, alts [lit ''failed'', lit ''unsuccessful'', lit ''rejected'']], 22, ''OPERATION_FAILED''),
    (seqs [WordB, lit ''exception'', many sp, Chr (CHR '':'')], 28, ''EXCEPTION''),
    (seqs [WordB, alts [lit ''throw'', lit ''threw'', lit ''thrown'', seqs [lit ''raisin'', opt (Chr (CHR ''g''))], seqs [lit ''raise'', opt (Chr (CHR ''d''))]], many1 sp, many wd, lit ''exception''], 28, ''EXCEPTION''),
    (seqs [WordB, many1 wd, lit ''exception'', WordB], 22, ''EXCEPTION''),
    (seqs [WordB, many1 wd, lit ''error'', WordB], 18, ''ERROR_TYPE''),
    (seqs [WordB, lit ''error'', many sp, Chr (CHR '':''), many sp, many1 Dot], 22, ''ERROR_MESSAGE''),
    (seqs [WordB, alts [lit ''fatal'', lit ''critical'', lit ''severe''], many1 sp, alts [lit ''error'', lit ''exception'', lit ''failure'']], 30, ''CRITICAL_ERROR''),
    (seqs [WordB, alts [lit ''get'', lit ''fetch'', lit ''retrieve'', lit ''load'', lit ''read''], many1 sp, many1 wd, many sp, alts [lit ''variable'', lit ''value'', lit ''data'', lit ''config'', lit ''setting'', lit ''property''], many Dot, many1 (Cls False [COne (CHR '':''), COne (CHR ''-''), COne (CHR ''=''), COne (CHR ''>''), CSpace]), alts [lit ''undefined'', lit ''null'', lit ''empty'', lit ''missing'']], 32, ''STATE_RETRIEVAL_FAILURE''),
    (seqs [WordB, alts [lit ''session'', lit ''context'', lit ''state''], many1 sp, many wd, many sp, alts [seqs [lit ''not'', many1 sp, lit ''found''], lit ''undefined'', lit ''null'', lit ''expired'', lit ''invalid'', lit ''missing'', lit ''empty'']], 30, ''SESSION_ERROR''),
    (seqs [WordB, lit ''variable'', many1 sp, alts [seqs [lit ''not'', many1 sp, lit ''found''], lit ''undefined'', lit ''null'', lit ''missing'', lit ''empty'']], 28, ''STATE_RETRIEVAL_FAILURE''),
    (seqs [WordB, alts [lit ''user'', lit ''account'', lit ''profile'', lit ''session''], many sp, opt (alts [lit ''id'', lit ''ID'', lit ''Id'']), many sp, opt (Cls False [COne (CHR '':''), COne (CHR ''-''), COne (CHR ''=''), COne (CHR ''>'')]), many sp, alts [lit ''undefined'', lit ''null'', lit ''missing'', seqs [lit ''not'', many1 sp, lit ''found''], lit ''N/A'']], 30, ''IDENTITY_ERROR''),
    (seqs [WordB, lit ''cache'', many1 sp, alts [lit ''miss'', lit ''failure'', lit ''error'', lit ''expired'', lit ''empty'', lit ''invalid'']], 24, ''CACHE_ERROR''),
    (seqs [WordB, alts [lit ''lookup'', lit ''search'', lit ''query''], many1 sp, alts [lit ''failed'', seqs [lit ''returned'', many1 sp, lit ''nothing''], seqs [lit ''no'', many1 sp, lit ''result'', opt (Chr (CHR ''s''))]]], 22, ''LOOKUP_FAILURE''),
    (seqs [WordB, alts [lit ''sql'', lit ''database'', lit ''db'', lit ''query'', lit ''transaction''], many sp, alts [lit ''error'', lit ''exception'', lit ''failure'', lit ''failed'']], 26, ''DATABASE_ERROR''),
    (seqs [WordB, lit ''query'', many1 sp, alts [lit ''failed'', lit ''error'', lit ''timeout'']], 24, ''DATABASE_ERROR''),
    (seqs [WordB, lit ''deadlock'', WordB], 28, ''DATABASE_ERROR''),
    (seqs [WordB, lit ''duplicate'', many1 sp, alts [lit ''key'', lit ''entry'', lit ''record'']], 22, ''DATABASE_ERROR''),
    (seqs [WordB, lit ''foreign'', many1 sp, lit ''key'', many1 sp, alts [lit ''violation'', lit ''constraint'', lit ''error'']], 24, ''DATABASE_ERROR''),
    (seqs [WordB, lit ''connection'', many1 sp, opt (seqs [lit ''to'', many1 sp]), alts [lit ''database'', lit ''db''], many sp, alts [lit ''failed'', lit ''refused'', lit ''timeout'', lit ''lost'']], 26, ''DATABASE_ERROR''),
    (seqs [WordB, alts [lit ''http'', lit ''api'', lit ''rest'', lit ''graphql''], many sp, alts [lit ''error'', lit ''failure'', lit ''failed'', lit ''exception'']], 22, ''API_ERROR''),
    (seqs [WordB, lit ''status'', many sp, opt (Cls False [COne (CHR ''=''), COne (CHR '':'')]), many sp, alts [seqs [Chr (CHR ''4''), seqs [dg, dg]], seqs [Chr (CHR ''5''), seqs [dg, dg]]], WordB], 24, ''HTTP_ERROR''),
    (seqs [WordB, alts [seqs [Chr (CHR ''4''), seqs [dg, dg]], seqs [Chr (CHR ''5''), seqs [dg, dg]]], many1 sp, alts [lit ''error'', lit ''response'', lit ''status'']], 24, ''HTTP_ERROR''),
    (seqs [WordB, lit ''response'', many sp, opt (alts [lit ''is'', lit ''was'', Chr (CHR '':'')]), many sp, alts [lit ''empty'', lit ''null'', lit ''undefined'', lit ''invalid'', lit ''malformed'']], 24, ''API_ERROR''),
    (seqs [WordB, lit ''api'', many1 sp, alts [lit ''call'', lit ''request''], many1 sp, alts [lit ''failed'', lit ''timeout'', lit ''rejected'']], 24, ''API_ERROR''),
    (seqs [WordB, lit ''connection'', many1 sp, alts [lit ''failed'', lit ''refused'', lit ''reset'', lit ''timeout'', lit ''closed'', lit ''lost'', lit ''dropped'']], 26, ''CONNECTION_ERROR''),
    (seqs [WordB, alts [lit ''network'', lit ''socket'', lit ''tcp'', lit ''udp''], many sp, alts [lit ''error'', lit ''failure'', lit ''timeout'', lit ''unreachable'']], 24, ''NETWORK_ERROR''),
    (seqs [WordB, lit ''host'', many1 sp, alts [lit ''unreachable'', lit ''unknown'', seqs [lit ''not'', many1 sp, lit ''found'']]], 24, ''NETWORK_ERROR''),
    (seqs [WordB, lit ''dns'', many1 sp, alts [lit ''error'', lit ''failure'', lit ''timeout'', seqs [lit ''not'', many1 sp, lit ''found'']]], 24, ''NETWORK_ERROR''),
    (seqs [WordB, lit ''out'', many1 sp, lit ''of'', many1 sp, alts [lit ''memory'', lit ''space'', lit ''disk'', lit ''resources'', lit ''handles'', lit ''connections'']], 32, ''RESOURCE_ERROR''),
    (seqs [WordB, lit ''memory'', many1 sp, alts [lit ''leak'', lit ''overflow'', lit ''exhausted'', seqs [lit ''allocation'', many1 sp, lit ''failed'']]], 30, ''MEMORY_ERROR''),
    (seqs [WordB, lit ''heap'', many1 sp, alts [lit ''overflow'', lit ''exhausted'', lit ''full'', seqs [lit ''out'', many1 sp, lit ''of'']]], 30, ''MEMORY_ERROR''),
    (seqs [WordB, lit ''stack'', many1 sp, alts [lit ''overflow'', lit ''exhausted'']], 32, ''MEMORY_ERROR''),
    (seqs [WordB, alts [lit ''resource'', lit ''handle'', lit ''file'', lit ''socket''], many1 sp, alts [lit ''limit'', lit ''exhausted'', lit ''leak'']], 26, ''RESOURCE_ERROR''),
    (seqs [WordB, alts [lit ''assertion'', lit ''assert''], many1 sp, alts [lit ''failed'', lit ''error'', lit ''failure'']], 28, ''ASSERTION_FAILURE''),
    (seqs [WordB, lit ''validation'', many1 sp, alts [lit ''failed'', lit ''error'', lit ''failure'', lit ''unsuccessful'']], 22, ''VALIDATION_ERROR''),
    (seqs [WordB, lit ''invalid'', many1 sp, many1 wd, many sp, alts [lit ''format'', lit ''type'', lit ''value'', lit ''input'', lit ''data'', lit ''syntax'', lit ''schema'']], 20, ''VALIDATION_ERROR''),
    (seqs [WordB, alts [lit ''schema'', lit ''format'', lit ''type''], many1 sp, alts [lit ''mismatch'', lit ''error'', lit ''invalid'', lit ''violation'']], 22, ''VALIDATION_ERROR''),
    (seqs [WordB, lit ''required'', many1 sp, alts [lit ''field'', lit ''parameter'', lit ''argument'', lit ''property''], many1 sp, alts [lit ''missing'', seqs [lit ''not'', many1 sp, lit ''provided''], lit ''undefined'', lit ''null'']], 26, ''VALIDATION_ERROR''),
    (seqs [WordB, alts [lit ''auth'', lit ''authentication'', lit ''authorization'', seqs [lit ''auth'', opt (Chr (CHR ''z''))], lit ''login''], many sp, alts [lit ''failed'', lit ''failure'', lit ''error'', lit ''denied'', lit ''rejected'', lit ''invalid'']], 24, ''AUTH_ERROR''),
    (seqs [WordB, lit ''token'', many1 sp, alts [lit ''expired'', lit ''invalid'', lit ''missing'', lit ''rejected'', lit ''revoked'', seqs [lit ''not'', many1 sp, lit ''found'']]], 24, ''AUTH_ERROR''),
    (seqs [WordB, lit ''credential'', opt (Chr (CHR ''s'')), many1 sp, alts [lit ''invalid'', lit ''expired'', lit ''rejected'', lit ''failed'', lit ''incorrect'', lit ''wrong'']], 24, ''AUTH_ERROR''),
    (seqs [WordB, alts [lit ''access'', lit ''permission''], many1 sp, alts [lit ''denied'', lit ''forbidden'', lit ''refused'', lit ''unauthorized'']], 24, ''AUTH_ERROR''),
    (seqs [WordB, lit ''unauthorized'', many1 sp, alts [lit ''access'', lit ''request'', lit ''operation'']], 24, ''AUTH_ERROR''),
    (seqs [WordB, lit ''config'', opt (lit ''uration''), many sp, alts [lit ''error'', lit ''missing'', lit ''invalid'', seqs [lit ''not'', many1 sp, lit ''found''], lit ''failed'', lit ''undefined'']], 22, ''CONFIG_ERROR''),
    (seqs [WordB, lit ''missing'', many1 sp, opt (seqs [lit ''required'', many1 sp]), alts [lit ''config'', lit ''setting'', lit ''parameter'', lit ''argument'', lit ''env'', lit ''environment'']], 22, ''CONFIG_ERROR''),
    (seqs [WordB, lit ''environment'', many1 sp, lit ''variable'', many1 sp, alts [seqs [lit ''not'', many1 sp, lit ''set''], lit ''missing'', lit ''undefined'', lit ''empty'']], 24, ''CONFIG_ERROR''),
    (seqs [WordB, alts [lit ''timeout'', seqs [lit ''time'', opt (Chr (CHR ''d'')), many sp, lit ''out'']], many sp, opt (alts [lit ''error'', lit ''exception'', lit ''failure'', lit ''occurred'', lit ''reached'', lit ''exceeded''])], 24, ''TIMEOUT''),
    (seqs [WordB, alts [lit ''operation'', lit ''request'', lit ''connection'', lit ''query''], many1 sp, lit ''time'', opt (Chr (CHR ''d'')), many sp, lit ''out''], 24, ''TIMEOUT''),
    (seqs [WordB, lit ''exceeded'', many1 sp, alts [lit ''timeout'', seqs [lit ''time'', many sp, lit ''limit''], lit ''deadline'']], 24, ''TIMEOUT''),
    (seqs [WordB, alts [lit ''parse'', lit ''parsing'', lit ''deserialize'', lit ''unmarshal''], many sp, alts [lit ''error'', lit ''failed'', lit ''failure'', lit ''exception'']], 22, ''PARSE_ERROR''),
    (seqs [WordB, alts [lit ''json'', lit ''xml'', lit ''yaml'', lit ''csv''], many sp, opt (alts [lit ''parse'', lit ''parsing'']), many sp, alts [lit ''error'', lit ''failed'', lit ''invalid'', lit ''malformed'']], 22, ''PARSE_ERROR''),
    (seqs [WordB, lit ''syntax'', many1 sp, lit ''error''], 24, ''PARSE_ERROR''),
    (seqs [WordB, lit ''malformed'', many1 sp, alts [lit ''data'', lit ''input'', lit ''request'', lit ''response'', lit ''message'', lit ''payload'']], 22, ''PARSE_ERROR''),
    (seqs [WordB, lit ''message'', many1 sp, alts [lit ''processing'', lit ''handling''], many1 sp, alts [lit ''failed'', lit ''error'', lit ''rejected'']], 24, ''MESSAGE_ERROR''),
    (seqs [WordB, alts [lit ''event'', lit ''message'', lit ''request''], many1 sp, alts [lit ''dropped'', lit ''lost'', lit ''rejected'', lit ''undelivered'', lit ''unprocessed'']], 24, ''MESSAGE_ERROR''),
    (seqs [WordB, lit ''queue'', many1 sp, alts [lit ''full'', lit ''overflow'', lit ''blocked'', lit ''error'']], 22, ''QUEUE_ERROR''),
    (seqs [WordB, alts [lit ''data'', lit ''record'', lit ''entry''], many1 sp, alts [lit ''corrupt'', lit ''corrupted'', lit ''inconsistent'', lit ''invalid'', lit ''missing'']], 26, ''DATA_INTEGRITY''),
    (seqs [WordB, lit ''checksum'', many1 sp, alts [lit ''mismatch'', lit ''error'', lit ''failed'', lit ''invalid'']], 26, ''DATA_INTEGRITY''),
    (seqs [WordB, lit ''integrity'', many1 sp, alts [lit ''check'', lit ''violation'', lit ''error'', lit ''failed'']], 26, ''DATA_INTEGRITY''),
    (seqs [WordB, alts [lit ''lock'', lit ''mutex'', lit ''semaphore''], many1 sp, alts [lit ''timeout'', lit ''failed'', lit ''error'', lit ''conflict'', lit ''deadlock'']], 26, ''CONCURRENCY_ERROR''),
    (seqs [WordB, lit ''race'', many1 sp, lit ''condition''], 26, ''CONCURRENCY_ERROR''),
    (seqs [WordB, lit ''concurrent'', many1 sp, alts [lit ''access'', lit ''modification''], many1 sp, alts [lit ''error'', lit ''conflict'', lit ''violation'']], 24, ''CONCURRENCY_ERROR'')
  ] @ buildFieldValuePatterns"

text \<open>\<^verbatim>\<open>CONTEXT_MODIFIERS\<close>; a multiplier is the binary64 value of its decimal literal.\<close>

definition amplifiers :: "(re \<times> rat) list" where
  "amplifiers = [
    (seqs [WordB, alts [lit ''critical'', lit ''severe'', lit ''fatal'', lit ''serious'', lit ''major''], WordB], 15 / 10),
    (seqs [WordB, lit ''unexpected'', WordB], 13 / 10),
    (seqs [WordB, lit ''unhandled'', WordB], 14 / 10),
    (seqs [WordB, lit ''uncaught'', WordB], 14 / 10)
  ]"

definition dampeners :: "(re \<times> rat) list" where
  "dampeners = [
    (seqs [WordB, alts [seqs [lit ''no'', many1 sp, lit ''error''], seqs [lit ''without'', many1 sp, lit ''error''], seqs [lit ''error'', many1 sp, lit ''free''], lit ''successfully''], WordB], 3 / 10),
    (seqs [WordB, alts [seqs [lit ''checking'', many1 sp, lit ''for''], seqs [lit ''looking'', many1 sp, lit ''for''], seqs [lit ''searching'', many1 sp, lit ''for'']], WordB], 5 / 10),
    (seqs [WordB, lit ''if'', many1 sp, many Dot, many1 sp, alts [lit ''error'', lit ''fail'', lit ''null'', lit ''undefined''], WordB], 4 / 10),
    (seqs [WordB, alts [lit ''test'', lit ''mock'', lit ''stub'', lit ''fake'', lit ''dummy''], WordB], 5 / 10),
    (seqs [WordB, lit ''debug'', opt (lit ''ging''), WordB], 7 / 10)
  ]"

definition ERROR_SCORE_THRESHOLD :: rat where
  "ERROR_SCORE_THRESHOLD = 25"

definition HIGH_CONFIDENCE_THRESHOLD :: rat where
  "HIGH_CONFIDENCE_THRESHOLD = 50"

subsection \<open>analyzeLogForErrors\<close>

datatype confidence = LOW | MEDIUM | HIGH

text \<open>A category is a string, or \<^verbatim>\<open>undefined\<close> (\<open>None\<close>) when it was read off an inherited value.\<close>

record analysis =
  score :: jsnum
  categories :: "string option list"
  reasons :: "string list"
  isError :: bool
  confidence :: confidence

text \<open>
  Reading one of the properties \<^verbatim>\<open>message\<close>, \<^verbatim>\<open>log\<close>, \<^verbatim>\<open>level\<close>, which no prototype defines:
  a TypeError on \<^verbatim>\<open>null\<close> and \<^verbatim>\<open>undefined\<close>, \<^verbatim>\<open>undefined\<close> on any other value that is not an
  object with that entry.
\<close>

fun getProp :: "jsval \<Rightarrow> string \<Rightarrow> error + jsval" where
  "getProp JUndefined k = Inl TypeError"
| "getProp JNull k = Inl TypeError"
| "getProp (JObj es) k = Inr (case map_of es k of None \<Rightarrow> JUndefined | Some v \<Rightarrow> v)"
| "getProp (JBool b) k = Inr JUndefined"
| "getProp (JNum n) k = Inr JUndefined"
| "getProp (JStr s) k = Inr JUndefined"
| "getProp (JArr xs) k = Inr JUndefined"

text \<open>\<^verbatim>\<open>v?.level\<close>\<close>

definition optLevel :: "jsval \<Rightarrow> error + jsval" where
  "optLevel v = (if v = JUndefined \<or> v = JNull then Inr JUndefined else getProp v ''level'')"

text \<open>\<^verbatim>\<open>a || b\<close>\<close>

definition orElse :: "jsval \<Rightarrow> jsval \<Rightarrow> jsval" where
  "orElse a b = (if truthy a then a else b)"

text \<open>Calling a string method on a value: a TypeError unless the value is a string.\<close>

fun asString :: "jsval \<Rightarrow> error + string" where
  "asString (JStr s) = Inr s"
| "asString JUndefined = Inl TypeError"
| "asString JNull = Inl TypeError"
| "asString (JBool b) = Inl TypeError"
| "asString (JNum n) = Inl TypeError"
| "asString (JArr xs) = Inl TypeError"
| "asString (JObj es) = Inl TypeError"

definition zeroAnalysis :: analysis where
  "zeroAnalysis = \<lparr> score = Fin 0, categories = [], reasons = [], isError = False, confidence = LOW \<rparr>"

text \<open>Step 1: the log level.\<close>

definition applyLevel :: "string \<Rightarrow> analysis \<Rightarrow> analysis" where
  "applyLevel logLevel r =
     (if logLevel = [] then r
      else case levelSeverity logLevel of
        None \<Rightarrow> r
      | Some (OwnLevel s c) \<Rightarrow>
          r\<lparr> score := num_add (score r) (of_nat s), categories := categories r @ [Some c],
             reasons := reasons r @ [''Log level: '' @ toUpperCase logLevel] \<rparr>
      | Some InheritedValue \<Rightarrow>
          r\<lparr> score := NaN, categories := categories r @ [None],
             reasons := reasons r @ [''Log level: '' @ toUpperCase logLevel] \<rparr>)"

text \<open>Step 2: one keyword.\<close>

definition applyKeyword :: "string \<Rightarrow> analysis \<Rightarrow> string \<times> nat \<Rightarrow> analysis" where
  "applyKeyword messageLower r kw =
     (if includes_str messageLower (fst kw)
      then r\<lparr> score := num_add (score r) (of_nat (snd kw)),
              reasons := reasons r @ [''Keyword: '' @ [CHR 0x22] @ fst kw @ [CHR 0x22]] \<rparr>
      else r)"

text \<open>Step 3: one structural pattern.\<close>

definition applyPattern :: "string \<Rightarrow> analysis \<Rightarrow> re \<times> nat \<times> string \<Rightarrow> analysis" where
  "applyPattern message r pat =
     (case pat of (regex, s, category) \<Rightarrow>
        if re_test True regex message
        then r\<lparr> score := num_add (score r) (of_nat s),
                categories := (if List.member (categories r) (Some category) then categories r
                               else categories r @ [Some category]),
                reasons := reasons r @ [''Pattern: '' @ category] \<rparr>
        else r)"

text \<open>Step 4: one context modifier; the state is the running multiplier and the reasons.\<close>

definition applyModifier :: "string \<Rightarrow> string \<Rightarrow> rat \<times> string list \<Rightarrow> re \<times> rat \<Rightarrow> rat \<times> string list" where
  "applyModifier reason message st m =
     (if re_test True (fst m) message
      then (fl (fst st * fl (snd m)), snd st @ [reason])
      else st)"

text \<open>Steps 2 to 6, on the normalised level and the message text.\<close>

definition scoreRecord :: "string \<Rightarrow> string \<Rightarrow> analysis" where
  "scoreRecord logLevel message =
     (let r1 = applyLevel logLevel zeroAnalysis;
          messageLower = toLowerCase message;
          r2 = foldl (applyKeyword messageLower) r1 NEGATIVE_ACTION_KEYWORDS;
          r3 = foldl (applyPattern message) r2 STRUCTURAL_PATTERNS;
          a = foldl (applyModifier ''Amplifier: severity increased'' message) (1, reasons r3) amplifiers;
          d = foldl (applyModifier ''Dampener: possible false positive'' message) a dampeners;
          modifier = fst d;
          final = Math_round (num_mul (score r3) modifier);
          err = num_ge final ERROR_SCORE_THRESHOLD;
          conf = (if num_ge final HIGH_CONFIDENCE_THRESHOLD then HIGH
                  else if num_ge final ERROR_SCORE_THRESHOLD then MEDIUM else LOW);
          cats = (if length (categories r3) = 0 \<and> err then categories r3 @ [Some ''GENERAL_ERROR'']
                  else categories r3)
      in \<lparr> score = final, categories = cats, reasons = snd d, isError = err, confidence = conf \<rparr>)"

text \<open>An exception ends the evaluation: the rest runs on a value only.\<close>

definition bindE :: "error + 'a \<Rightarrow> ('a \<Rightarrow> error + 'b) \<Rightarrow> error + 'b" where
  "bindE x f = (case x of Inl e \<Rightarrow> Inl e | Inr v \<Rightarrow> f v)"

text \<open>\<^verbatim>\<open>log.message || ''\<close>\<close>

definition readMessage :: "jsval \<Rightarrow> error + jsval" where
  "readMessage entry = bindE (getProp entry ''message'') (\<lambda>m. Inr (orElse m (JStr [])))"

text \<open>
  \<^verbatim>\<open>(log.log?.level || log.level || '').toLowerCase().trim()\<close>: the method call throws on a
  value that is not a string.
\<close>

definition readLevel :: "jsval \<Rightarrow> error + string" where
  "readLevel entry =
     bindE (getProp entry ''log'') (\<lambda>l.
     bindE (optLevel l) (\<lambda>nested.
     bindE (getProp entry ''level'') (\<lambda>direct.
     bindE (asString (orElse (orElse nested direct) (JStr []))) (\<lambda>levelText.
       Inr (trim (toLowerCase levelText))))))"

text \<open>\<^verbatim>\<open>message.toLowerCase()\<close> in step 2 throws as well on a message that is not a string.\<close>

definition analyzeLogForErrors :: "jsval \<Rightarrow> error + analysis" where
  "analyzeLogForErrors entry =
     (if \<not> truthy entry then Inr zeroAnalysis
      else
        bindE (readMessage entry) (\<lambda>message.
        bindE (readLevel entry) (\<lambda>logLevel.
        bindE (asString message) (\<lambda>text.
          Inr (scoreRecord logLevel text)))))"

subsection \<open>extractKeyValuePairs\<close>

record kvEntry =
  kv_value :: string
  kv_isInvalid :: bool
  kv_count :: nat

type_synonym kvMap = "string \<rightharpoonup> kvEntry"

definition nullIndicators :: "string list" where
  "nullIndicators =
     [''undefined'', ''null'', ''nil'', ''none'', ''n/a'', ''na'', ''empty'', ''blank'',
      [CHR 0x22, CHR 0x22], [CHR 0x27, CHR 0x27], ''[]'', ''{}'', ''<null>'', ''<undefined>'', ''<empty>'', ''<none>'',
      ''[null]'', ''[undefined]'', ''(null)'', ''(undefined)'', ''nan'', ''unknown'',
      ''not defined'', ''not set'', ''unset'', ''missing'', ''absent'', ''void'',
      ''failed'', ''failure'', ''error'', ''timeout'', ''unavailable'']"

definition isNullOrErrorValue :: "string \<Rightarrow> bool" where
  "isNullOrErrorValue v =
     (if v = [] then True
      else let lowerValue = trim (toLowerCase v)
           in list_ex (\<lambda>ind. lowerValue = ind \<or> startsWith lowerValue ind) nullIndicators)"

text \<open>The four global regexes; none carries the \<^verbatim>\<open>i\<close> flag.\<close>

definition kvPatterns :: "re list" where
  "kvPatterns = [
    seqs [Grp 1 (seqs [letter, Star False nameCharSp]), many sp, Chr (CHR '':''), many sp, Grp 2 (many1 (Cls True [CSpace, COne (CHR '',''), COne (CHR '';''), COne (CHR '')''), COne (CHR '']'')]))],
    seqs [Grp 1 (seqs [letter, many nameChar]), many sp, Chr (CHR ''=''), many sp, Grp 2 (many1 (Cls True [CSpace, COne (CHR '',''), COne (CHR '';''), COne (CHR '')''), COne (CHR '']'')]))],
    seqs [Grp 1 (seqs [letter, Star False nameCharSp]), many sp, lit ''->'', many sp, Grp 2 (many1 (Cls True [CSpace, COne (CHR '',''), COne (CHR '';''), COne (CHR '')''), COne (CHR '']'')]))],
    seqs [Grp 1 (seqs [letter, many nameChar]), many sp, lit ''=>'', many sp, Grp 2 (many1 (Cls True [CSpace, COne (CHR '',''), COne (CHR '';''), COne (CHR '')''), COne (CHR '']'')]))]
  ]"

text \<open>The body of the \<^verbatim>\<open>while\<close> loop for one match: \<open>m1\<close> and \<open>m2\<close> are \<^verbatim>\<open>match[1]\<close> and \<^verbatim>\<open>match[2]\<close>.\<close>

definition kvStore :: "kvMap \<Rightarrow> string \<Rightarrow> string \<Rightarrow> kvMap" where
  "kvStore kvm m1 m2 =
     (let key = toLowerCase (trim m1); v = trim m2 in
      if length key < 3 \<or> List.member [''the'', ''and'', ''for'', ''with''] key then kvm
      else
        let isInvalidValue = isNullOrErrorValue v in
        case kvm key of
          None \<Rightarrow> kvm(key \<mapsto> \<lparr> kv_value = v, kv_isInvalid = isInvalidValue, kv_count = 1 \<rparr>)
        | Some existing \<Rightarrow>
            let counted = existing\<lparr> kv_count := kv_count existing + 1 \<rparr> in
            if kv_isInvalid counted \<and> \<not> isInvalidValue
            then kvm(key \<mapsto> counted\<lparr> kv_value := v, kv_isInvalid := False \<rparr>)
            else kvm(key \<mapsto> counted))"

text \<open>
  The \<^verbatim>\<open>while ((match = pattern.exec(message)) !== null)\<close> loop of a global regex. \<open>p\<close> and \<open>s\<close>
  are the input at \<^verbatim>\<open>lastIndex\<close>. A match that does not move \<^verbatim>\<open>lastIndex\<close> would be found
  again for ever: the loop does not return, which is the value \<open>None\<close>.
\<close>

function execLoop :: "re \<Rightarrow> char option \<Rightarrow> string \<Rightarrow> kvMap \<Rightarrow> kvMap option" where
  "execLoop r p s kvm =
     (case first_match False r (suffixes p s) of
        None \<Rightarrow> Some kvm
      | Some st \<Rightarrow>
          if length (fst (snd st)) < length s
          then execLoop r (fst st) (fst (snd st)) (kvStore kvm (capture 1 (snd (snd st))) (capture 2 (snd (snd st))))
          else None)"
  by pat_completeness auto
termination
  by (relation "measure (\<lambda>(r, p, s, kvm). length s)") auto

declare execLoop.simps [simp del]

fun scanPatterns :: "re list \<Rightarrow> string \<Rightarrow> kvMap \<Rightarrow> kvMap option" where
  "scanPatterns [] message kvm = Some kvm"
| "scanPatterns (pattern # rest) message kvm =
     (case execLoop pattern None message kvm of
        None \<Rightarrow> None
      | Some kvm' \<Rightarrow> scanPatterns rest message kvm')"

datatype 'a outcome = Returns 'a | Throws error | Diverges

text \<open>
  \<^verbatim>\<open>exec\<close> converts its argument to a string. For a message that is not a string the
  conversion is a parameter, \<open>toText\<close>.
\<close>

definition messageText :: "(jsval \<Rightarrow> string) \<Rightarrow> jsval \<Rightarrow> string" where
  "messageText toText m = (case orElse m (JStr []) of JStr s \<Rightarrow> s | v \<Rightarrow> toText v)"

fun scanLogs :: "(jsval \<Rightarrow> string) \<Rightarrow> jsval list \<Rightarrow> kvMap \<Rightarrow> kvMap outcome" where
  "scanLogs toText [] kvm = Returns kvm"
| "scanLogs toText (entry # logs) kvm =
     (case getProp entry ''message'' of
        Inl e \<Rightarrow> Throws e
      | Inr m \<Rightarrow>
          (case scanPatterns kvPatterns (messageText toText m) kvm of
             None \<Rightarrow> Diverges
           | Some kvm' \<Rightarrow> scanLogs toText logs kvm'))"

definition extractKeyValuePairs :: "(jsval \<Rightarrow> string) \<Rightarrow> jsval list \<Rightarrow> kvMap outcome" where
  "extractKeyValuePairs toText logs = scanLogs toText logs Map.empty"

section \<open>A host for the examples\<close>

text \<open>
  The theorems below hold for every host. Their examples run on this one. Its \<^verbatim>\<open>RegExp\<close>
  reads the fragment of the pattern language made of literal word characters, \<^verbatim>\<open>-\<close>, the
  space, \<^verbatim>\<open>.\<close>, \<^verbatim>\<open>\.\<close>, \<^verbatim>\<open>^\<close>, \<^verbatim>\<open>$\<close> and the postfix \<^verbatim>\<open>*\<close>, and reports any other
  pattern as a SyntaxError, as JavaScript does for \<^verbatim>\<open>[\<close>, \<^verbatim>\<open>(\<close>, \<^verbatim>\<open>*a\<close> and \<^verbatim>\<open>a**\<close>; the
  examples use no pattern outside the fragment that JavaScript accepts.
\<close>

definition atomOf :: "char \<Rightarrow> re option" where
  "atomOf c =
     (if c = CHR ''.'' then Some Dot
      else if is_word c \<or> c = CHR ''-'' \<or> c = CHR '' '' then Some (Chr c)
      else None)"

datatype token = TAtom re | TStar | TBol | TEol | TBad

definition tokenOf :: "char \<Rightarrow> token" where
  "tokenOf c =
     (if c = CHR ''*'' then TStar
      else if c = CHR ''^'' then TBol
      else if c = CHR ''$'' then TEol
      else case atomOf c of None \<Rightarrow> TBad | Some a \<Rightarrow> TAtom a)"

fun tokens :: "string \<Rightarrow> token list" where
  "tokens [] = []"
| "tokens (c # cs) =
     (if c = CHR 0x5C
      then (case cs of
              [] \<Rightarrow> [TBad]
            | d # ds \<Rightarrow> (if d = CHR ''.'' then TAtom (Chr d) else TBad) # tokens ds)
      else tokenOf c # tokens cs)"

fun build :: "token list \<Rightarrow> error + re" where
  "build [] = Inr Eps"
| "build (TAtom a # TStar # ts) = map_sum id (Seq (Star True a)) (build ts)"
| "build (TAtom a # ts) = map_sum id (Seq a) (build ts)"
| "build (TBol # ts) = map_sum id (Seq Bol) (build ts)"
| "build (TEol # ts) = map_sum id (Seq Eol) (build ts)"
| "build (TStar # ts) = Inl SyntaxError"
| "build (TBad # ts) = Inl SyntaxError"

definition parsePattern :: "string \<Rightarrow> error + re" where
  "parsePattern s = build (tokens s)"

definition exampleRegExp :: "string \<Rightarrow> error + regex" where
  "exampleRegExp pattern = map_sum id (\<lambda>r. re_test False r) (parsePattern pattern)"

text \<open>
  Its \<^verbatim>\<open>diff\<close> follows the deep-diff package on plain data: a value against an absent one
  is an addition or a deletion, values of different types are an edit, arrays are compared
  from the last index down (the surplus of the longer one first, so \<open>diffItems\<close> puts the
  higher indices in front), objects key by key
  (the keys of the left side, then the keys that only the right side has, the empty key
  left out), and two scalars differ unless they are equal or both \<^verbatim>\<open>NaN\<close>.
\<close>

datatype realType = TUndefined | TNull | TBoolean | TNumber | TString | TArray | TObject

fun realTypeOf :: "jsval \<Rightarrow> realType" where
  "realTypeOf JUndefined = TUndefined"
| "realTypeOf JNull = TNull"
| "realTypeOf (JBool b) = TBoolean"
| "realTypeOf (JNum n) = TNumber"
| "realTypeOf (JStr s) = TString"
| "realTypeOf (JArr xs) = TArray"
| "realTypeOf (JObj es) = TObject"

definition scalarDiff :: "pelem list \<Rightarrow> jsval \<Rightarrow> jsval \<Rightarrow> rawdiff list" where
  "scalarDiff p l r =
     (if l = JUndefined \<and> r \<noteq> JUndefined then [RawDiff KindN (Some p) l r None None]
      else if r = JUndefined \<and> l \<noteq> JUndefined then [RawDiff KindD (Some p) l r None None]
      else if realTypeOf l \<noteq> realTypeOf r then [RawDiff KindE (Some p) l r None None]
      else if l \<noteq> r \<and> \<not> (l = JNum NaN \<and> r = JNum NaN) then [RawDiff KindE (Some p) l r None None]
      else [])"

fun diffAt :: "pelem list \<Rightarrow> jsval \<Rightarrow> jsval \<Rightarrow> rawdiff list"
  and diffItems :: "pelem list \<Rightarrow> nat \<Rightarrow> jsval list \<Rightarrow> jsval list \<Rightarrow> rawdiff list"
  and diffEntries :: "pelem list \<Rightarrow> (string \<times> jsval) list \<Rightarrow> (string \<times> jsval) list \<Rightarrow> rawdiff list"
where
  "diffAt p (JArr xs) (JArr ys) =
     (map (\<lambda>i. RawDiff KindA (Some p) JUndefined JUndefined (Some i)
                  (Some (RawDiff KindN None JUndefined (ys ! i) None None)))
          (rev [length xs ..< length ys])
      @ map (\<lambda>i. RawDiff KindA (Some p) JUndefined JUndefined (Some i)
                    (Some (RawDiff KindD None (xs ! i) JUndefined None None)))
          (rev [length ys ..< length xs])
      @ diffItems p 0 xs ys)"
| "diffAt p (JObj es) (JObj fs) =
     diffEntries p es fs
     @ concat (map (\<lambda>(k, v). scalarDiff (p @ [Key k]) JUndefined v)
                   (filter (\<lambda>(k, v). k \<noteq> [] \<and> map_of es k = None) fs))"
| "diffAt p l r = scalarDiff p l r"
| "diffItems p i [] ys = []"
| "diffItems p i (x # xs) [] = []"
| "diffItems p i (x # xs) (y # ys) = diffItems p (Suc i) xs ys @ diffAt (p @ [Idx i]) x y"
| "diffEntries p [] fs = []"
| "diffEntries p ((k, v) # es) fs =
     (case map_of fs k of
        Some w \<Rightarrow> diffAt (p @ [Key k]) v w
      | None \<Rightarrow> scalarDiff (p @ [Key k]) v JUndefined)
     @ diffEntries p es fs"

definition exampleDiff :: "jsval \<Rightarrow> jsval \<Rightarrow> rawdiff list option" where
  "exampleDiff l r =
     (let changes = map (\<lambda>d. case d of RawDiff k p a b i it \<Rightarrow>
                               RawDiff k (if p = Some [] then None else p) a b i it)
                        (diffAt [] l r)
      in if changes = [] then None else Some changes)"

definition exampleHost :: host where
  "exampleHost =
     \<lparr> RegExp = exampleRegExp, deepDiff = exampleDiff,
       defaultIgnoreFields = [''@timestamp'', ''timestamp''], defaultIgnorePatterns = [''.*_id$''] \<rparr>"

definition noOptions :: options where
  "noOptions = \<lparr> opt_ignoreFields = None, opt_ignorePatterns = None \<rparr>"

section \<open>Notions used to state the properties\<close>

subsection \<open>The counters of a report\<close>

definition total :: "summary \<Rightarrow> nat" where
  "total s = matchedCount s + mismatchedCount s + blueOnlyCount s + greenOnlyCount s"

text \<open>How the loop classifies index \<open>i\<close>, by the truthiness of the two entries read there.\<close>

definition greenOnlyAt :: "jsval list \<Rightarrow> jsval list \<Rightarrow> nat \<Rightarrow> bool" where
  "greenOnlyAt b g i = (\<not> truthy (at_index b i))"

definition blueOnlyAt :: "jsval list \<Rightarrow> jsval list \<Rightarrow> nat \<Rightarrow> bool" where
  "blueOnlyAt b g i = (truthy (at_index b i) \<and> \<not> truthy (at_index g i))"

definition pairedAt :: "jsval list \<Rightarrow> jsval list \<Rightarrow> nat \<Rightarrow> bool" where
  "pairedAt b g i = (truthy (at_index b i) \<and> truthy (at_index g i))"

text \<open>Two sequences for the examples.\<close>

definition blueExample :: "jsval list" where
  "blueExample =
     [JNull, JObj [(''a'', JNum (Fin 1))],
      JObj [(''a'', JNum (Fin 1)), (''user_id'', JStr ''u1'')], JObj []]"

definition greenExample :: "jsval list" where
  "greenExample =
     [JObj [(''a'', JNum (Fin 1))], JNum (Fin 0),
      JObj [(''a'', JNum (Fin 2)), (''user_id'', JStr ''u2'')]]"


subsection \<open>The exclusion filter\<close>

text \<open>A pattern compiles when \<^verbatim>\<open>new RegExp\<close> does not throw on it.\<close>

definition compiles :: "host \<Rightarrow> string \<Rightarrow> bool" where
  "compiles h pattern = (case RegExp h pattern of Inl e \<Rightarrow> False | Inr regex \<Rightarrow> True)"

text \<open>
  The exclusion condition in the words of the specification: the full path or one of its
  segments is an exact field name, or the full path or one of its segments matches one of
  the patterns that compile.
\<close>

definition ignoredBy :: "host \<Rightarrow> string list \<Rightarrow> string list \<Rightarrow> string \<Rightarrow> bool" where
  "ignoredBy h fs ps p =
     (let segments = split_on CHR ''.'' p in
      List.member fs p \<or> list_ex (\<lambda>seg. List.member fs seg) segments \<or>
      list_ex (\<lambda>pat. case RegExp h pat of
                        Inl e \<Rightarrow> False
                      | Inr regex \<Rightarrow> regex p \<or> list_ex regex segments) ps)"

text \<open>
  A location inside a value: the keys and indices that lead to it. \<open>pathStr\<close> is the path
  that \<^verbatim>\<open>removeIgnoredFields\<close> builds on its way to a location, \<open>fieldPrefixes\<close> are the
  fields on that way (the location itself when it is a field), and \<open>endsInKey\<close> says that
  the location is a field of an object and not an element of an array.
\<close>

fun lookup :: "jsval \<Rightarrow> pelem list \<Rightarrow> jsval option" where
  "lookup v [] = Some v"
| "lookup (JObj es) (Key k # rest) = (case map_of es k of None \<Rightarrow> None | Some w \<Rightarrow> lookup w rest)"
| "lookup (JArr xs) (Idx i # rest) = (if i < length xs then lookup (xs ! i) rest else None)"
| "lookup v (e # rest) = None"

fun pathStr :: "string \<Rightarrow> pelem list \<Rightarrow> string" where
  "pathStr parentPath [] = parentPath"
| "pathStr parentPath (Key k # rest) = pathStr (fieldPath parentPath k) rest"
| "pathStr parentPath (Idx i # rest) = pathStr (elemPath parentPath i) rest"

fun fieldPrefixes :: "pelem list \<Rightarrow> pelem list list" where
  "fieldPrefixes [] = []"
| "fieldPrefixes (Key k # rest) = [Key k] # map ((#) (Key k)) (fieldPrefixes rest)"
| "fieldPrefixes (Idx i # rest) = map ((#) (Idx i)) (fieldPrefixes rest)"

definition endsInKey :: "pelem list \<Rightarrow> bool" where
  "endsInKey loc = (loc \<noteq> [] \<and> (case last loc of Key k \<Rightarrow> True | Idx i \<Rightarrow> False))"

text \<open>
  A location occurs in a value when keys and indices of the value lead to it. What deep-diff
  reports for a pair of values are differences at locations that occur in one of the two:
  \<open>diffSound\<close> says so of the \<^verbatim>\<open>diff\<close> function of the host. \<open>reported\<close> is what that function
  returns for the filtered copies of two records.
\<close>

fun occurs :: "jsval \<Rightarrow> pelem list \<Rightarrow> bool" where
  "occurs v [] = True"
| "occurs (JObj es) (Key k # rest) = list_ex (\<lambda>(k', w). k' = k \<and> occurs w rest) es"
| "occurs (JArr xs) (Idx i # rest) = (i < length xs \<and> occurs (xs ! i) rest)"
| "occurs v (e # rest) = False"

definition diffSound :: "host \<Rightarrow> bool" where
  "diffSound h = (\<forall>l r ds d loc. deepDiff h l r = Some ds \<and> d \<in> set ds \<and> d_path d = Some loc
                     \<longrightarrow> occurs l loc \<or> occurs r loc)"

definition reported :: "host \<Rightarrow> jsval \<Rightarrow> jsval \<Rightarrow> string list \<Rightarrow> string list \<Rightarrow> rawdiff list" where
  "reported h b g fs ps =
     (case deepDiff h (removeIgnoredFields h b fs ps []) (removeIgnoredFields h g fs ps []) of
        None \<Rightarrow> []
      | Some ds \<Rightarrow> ds)"

text \<open>The host and the options with the patterns that do not compile left out.\<close>

definition validOnly :: "host \<Rightarrow> host" where
  "validOnly h = h\<lparr> defaultIgnorePatterns := filter (compiles h) (defaultIgnorePatterns h) \<rparr>"

definition validOptions :: "host \<Rightarrow> options \<Rightarrow> options" where
  "validOptions h opts = opts\<lparr> opt_ignorePatterns := map_option (filter (compiles h)) (opt_ignorePatterns opts) \<rparr>"

text \<open>The report before the first iteration.\<close>

definition report0 :: "jsval list \<Rightarrow> jsval list \<Rightarrow> string list \<Rightarrow> string list \<Rightarrow> report" where
  "report0 b g fs ps =
            \<lparr> summary = \<lparr> blueLogCount = length b, greenLogCount = length g,
                          matchedCount = 0, mismatchedCount = 0, blueOnlyCount = 0, greenOnlyCount = 0 \<rparr>,
              countMismatch = (length b \<noteq> length g),
              logDifferences = [], blueOnlyLogs = [], greenOnlyLogs = [],
              ignoredFields = fs, ignoredPatterns = ps \<rparr>"

text \<open>A nested record for the examples.\<close>

definition deepValue :: jsval where
  "deepValue = JObj [(''a'', JObj [(''b'', JObj [(''c'', JNum (Fin 1))]), (''d'', JStr ''x'')]),
                     (''log'', JObj [(''level'', JStr ''info'')]), (''level'', JStr ''warn''),
                     (''user_id'', JStr ''u1'')]"

definition deepValue2 :: jsval where
  "deepValue2 = JObj [(''a'', JObj [(''b'', JObj [(''c'', JNum (Fin 1))]), (''d'', JStr ''y'')]),
                      (''log'', JObj [(''level'', JStr ''debug'')]), (''level'', JStr ''error''),
                      (''user_id'', JStr ''u2'')]"

text \<open>Records with an array, with an empty key and with an own entry \<^verbatim>\<open>__proto__\<close>.\<close>

definition withArray :: "rat \<Rightarrow> jsval" where
  "withArray x = JObj [(''a'', JArr [JNum (Fin 1), JNum (Fin x)])]"

definition underEmptyKey :: "rat \<Rightarrow> jsval" where
  "underEmptyKey x = JObj [([], JObj [(''secret'', JNum (Fin x))])]"

definition withProto :: jsval where
  "withProto = JObj [(''__proto__'', JObj [(''a'', JNum (Fin 1))]), (''b'', JNum (Fin 2))]"

subsection \<open>The scorer\<close>

text \<open>
  The fields that \<^verbatim>\<open>analyzeLogForErrors\<close> reads off a record: \<open>field v k\<close> is \<^verbatim>\<open>v[k]\<close>, with
  \<^verbatim>\<open>undefined\<close> where there is nothing to read; \<open>levelValue\<close> is \<^verbatim>\<open>log.log?.level || log.level\<close>;
  \<open>textOf v\<close> is the string \<^verbatim>\<open>v || ''\<close> when \<open>v\<close> is a string or falsy, and \<open>levelName\<close> is the
  level after \<^verbatim>\<open>toLowerCase\<close> and \<^verbatim>\<open>trim\<close>.
\<close>

definition field :: "jsval \<Rightarrow> string \<Rightarrow> jsval" where
  "field v k = (case getProp v k of Inl e \<Rightarrow> JUndefined | Inr w \<Rightarrow> w)"

definition levelValue :: "jsval \<Rightarrow> jsval" where
  "levelValue entry = orElse (field (field entry ''log'') ''level'') (field entry ''level'')"

definition stringOrFalsy :: "jsval \<Rightarrow> bool" where
  "stringOrFalsy v = (case v of JStr s \<Rightarrow> True | _ \<Rightarrow> \<not> truthy v)"

definition textOf :: "jsval \<Rightarrow> string" where
  "textOf v = (case orElse v (JStr []) of JStr s \<Rightarrow> s | _ \<Rightarrow> [])"

definition levelName :: "jsval \<Rightarrow> string" where
  "levelName entry = trim (toLowerCase (textOf (levelValue entry)))"

text \<open>
  The modifiers whose regex matches a message, the product of multipliers as step 4
  computes it (each product rounded), the product over the matching dampeners alone, the
  multiplier that step 4 leaves, and the result of steps 1 to 3.
\<close>

definition matching :: "string \<Rightarrow> (re \<times> rat) list \<Rightarrow> (re \<times> rat) list" where
  "matching message mods = filter (\<lambda>m. re_test True (fst m) message) mods"

definition mulAll :: "rat \<Rightarrow> rat list \<Rightarrow> rat" where
  "mulAll start cs = foldl (\<lambda>a c. fl (a * fl c)) start cs"

definition dampProduct :: "string \<Rightarrow> rat" where
  "dampProduct message = mulAll 1 (map snd (matching message dampeners))"

definition modifierOf :: "string \<Rightarrow> rat" where
  "modifierOf message =
     mulAll (mulAll 1 (map snd (matching message amplifiers))) (map snd (matching message dampeners))"

definition additive :: "string \<Rightarrow> string \<Rightarrow> analysis" where
  "additive logLevel message =
     foldl (applyPattern message)
       (foldl (applyKeyword (toLowerCase message)) (applyLevel logLevel zeroAnalysis) NEGATIVE_ACTION_KEYWORDS)
       STRUCTURAL_PATTERNS"

text \<open>Records for the examples.\<close>

definition fatalDebug :: jsval where
  "fatalDebug = JObj [(''level'', JStr ''fatal''), (''message'', JStr ''debug test'')]"

definition fatalQuiet :: jsval where
  "fatalQuiet = JObj [(''log'', JObj [(''level'', JStr '' FATAL '')]), (''level'', JStr ''info'')]"

definition fatalNumeric :: jsval where
  "fatalNumeric = JObj [(''level'', JStr ''fatal''), (''message'', JNum (Fin 42))]"

definition numericMessage :: jsval where
  "numericMessage = JObj [(''level'', JStr ''info''), (''message'', JNum (Fin 42))]"

definition numericLevel :: jsval where
  "numericLevel = JObj [(''level'', JNum (Fin 3)), (''message'', JStr ''ok'')]"

definition inheritedLevel :: jsval where
  "inheritedLevel = JObj [(''level'', JStr ''Constructor'')]"

section \<open>Properties of compareWorkflowLogs\<close>

lemma compareAt_total: "total (summary (compareAt h b g fs ps r i)) = Suc (total (summary r))"
  by (simp add: compareAt_def total_def Let_def)

lemma foldl_total: "total (summary (foldl (compareAt h b g fs ps) r is)) = total (summary r) + length is"
  by (induction "is" arbitrary: r) (simp_all add: compareAt_total)

lemma compareAt_greenOnly:
  "greenOnlyLogs (compareAt h b g fs ps r i) = greenOnlyLogs r @ (if greenOnlyAt b g i then [(i, at_index g i)] else [])"
  "greenOnlyCount (summary (compareAt h b g fs ps r i)) = greenOnlyCount (summary r) + (if greenOnlyAt b g i then 1 else 0)"
  by (simp_all add: compareAt_def Let_def greenOnlyAt_def)

lemma compareAt_blueOnly:
  "blueOnlyLogs (compareAt h b g fs ps r i) = blueOnlyLogs r @ (if blueOnlyAt b g i then [(i, at_index b i)] else [])"
  "blueOnlyCount (summary (compareAt h b g fs ps r i)) = blueOnlyCount (summary r) + (if blueOnlyAt b g i then 1 else 0)"
  by (simp_all add: compareAt_def Let_def blueOnlyAt_def)

lemma compareAt_paired:
  "matchedCount (summary (compareAt h b g fs ps r i)) + mismatchedCount (summary (compareAt h b g fs ps r i))
     = matchedCount (summary r) + mismatchedCount (summary r) + (if pairedAt b g i then 1 else 0)"
  "map ld_index (logDifferences (compareAt h b g fs ps r i)) =
     map ld_index (logDifferences r) @
       (if pairedAt b g i \<and> hasDifferences (compareLogEntries h (at_index b i) (at_index g i) fs ps) then [i] else [])"
  by (simp_all add: compareAt_def Let_def pairedAt_def)

lemma foldl_greenOnly:
  "greenOnlyLogs (foldl (compareAt h b g fs ps) r is) = greenOnlyLogs r @ map (\<lambda>i. (i, at_index g i)) (filter (greenOnlyAt b g) is)"
  "greenOnlyCount (summary (foldl (compareAt h b g fs ps) r is)) = greenOnlyCount (summary r) + length (filter (greenOnlyAt b g) is)"
  by (induction "is" arbitrary: r) (simp_all add: compareAt_greenOnly)

lemma foldl_blueOnly:
  "blueOnlyLogs (foldl (compareAt h b g fs ps) r is) = blueOnlyLogs r @ map (\<lambda>i. (i, at_index b i)) (filter (blueOnlyAt b g) is)"
  "blueOnlyCount (summary (foldl (compareAt h b g fs ps) r is)) = blueOnlyCount (summary r) + length (filter (blueOnlyAt b g) is)"
  by (induction "is" arbitrary: r) (simp_all add: compareAt_blueOnly)

lemma foldl_paired:
  "matchedCount (summary (foldl (compareAt h b g fs ps) r is)) + mismatchedCount (summary (foldl (compareAt h b g fs ps) r is))
     = matchedCount (summary r) + mismatchedCount (summary r) + length (filter (pairedAt b g) is)"
  "map ld_index (logDifferences (foldl (compareAt h b g fs ps) r is)) =
     map ld_index (logDifferences r) @
       filter (\<lambda>i. pairedAt b g i \<and> hasDifferences (compareLogEntries h (at_index b i) (at_index g i) fs ps)) is"
  by (induction "is" arbitrary: r) (simp_all add: compareAt_paired)

lemma length_filter_ge: "length (filter (\<lambda>i. \<not> i < a) [0..<m]) = m - a"
  by (induction m) (auto simp: Suc_diff_le)

lemma length_filter_between: "length (filter (\<lambda>i. i < a \<and> \<not> i < c) [0..<m]) = min a m - c"
  by (induction m) (auto simp: Suc_diff_le min_def)

lemma truthy_at_index: "\<forall>x\<in>set xs. truthy x \<Longrightarrow> truthy (at_index xs i) \<longleftrightarrow> i < length xs"
  by (simp add: at_index_def)

lemma greenOnly_all_truthy:
  assumes "\<forall>x\<in>set b. truthy x"
  shows "length (filter (greenOnlyAt b g) [0..<m]) = m - length b"
proof -
  have "greenOnlyAt b g = (\<lambda>i. \<not> i < length b)"
    using assms by (simp add: greenOnlyAt_def fun_eq_iff truthy_at_index)
  then show ?thesis by (simp add: length_filter_ge)
qed

lemma blueOnly_all_truthy:
  assumes "\<forall>x\<in>set b. truthy x" "\<forall>x\<in>set g. truthy x"
  shows "length (filter (blueOnlyAt b g) [0..<m]) = min (length b) m - length g"
proof -
  have "blueOnlyAt b g = (\<lambda>i. i < length b \<and> \<not> i < length g)"
    using assms by (simp add: blueOnlyAt_def fun_eq_iff truthy_at_index)
  then show ?thesis by (simp add: length_filter_between)
qed


text \<open>
  Claim C1. The four counters of the report add up to the length of the longer sequence,
  for all inputs. The blue-only and green-only counters are the two length differences
  \<open>max 0 (len blue - len green)\<close> and \<open>max 0 (len green - len blue)\<close> (subtraction on \<open>nat\<close>
  stops at 0), and their sum is the absolute difference of the lengths, for sequences of
  log records: a record is an object, and every object is truthy.
\<close>

theorem compareWorkflowLogs_counters:
  "let s = summary (compareWorkflowLogs h blueLogs greenLogs opts) in
     matchedCount s + mismatchedCount s + blueOnlyCount s + greenOnlyCount s
           = max (length blueLogs) (length greenLogs)
         \<and> ((\<forall>x \<in> set blueLogs \<union> set greenLogs. truthy x) \<longrightarrow>
              blueOnlyCount s = length blueLogs - length greenLogs
            \<and> greenOnlyCount s = length greenLogs - length blueLogs
            \<and> int (blueOnlyCount s + greenOnlyCount s) = \<bar>int (length blueLogs) - int (length greenLogs)\<bar>)"
proof -
  define s where "s = summary (compareWorkflowLogs h blueLogs greenLogs opts)"
  have 1: "total s = max (length blueLogs) (length greenLogs)"
    unfolding s_def compareWorkflowLogs_def Let_def
    by (subst foldl_total) (simp add: total_def)
  have 2: "blueOnlyCount s = length blueLogs - length greenLogs" "greenOnlyCount s = length greenLogs - length blueLogs"
    if "\<forall>x \<in> set blueLogs \<union> set greenLogs. truthy x"
    using that unfolding s_def compareWorkflowLogs_def Let_def
    by (simp_all add: foldl_blueOnly foldl_greenOnly blueOnly_all_truthy greenOnly_all_truthy)
  show ?thesis unfolding Let_def s_def [symmetric] using 1 2 by (auto simp: total_def)
qed


theorem compareWorkflowLogs_counters_witness:
  "list_all truthy (tl blueExample @ tl (tl greenExample))
   \<and> blueOnlyCount (summary (compareWorkflowLogs exampleHost (tl blueExample) (tl (tl greenExample)) noOptions)) = 2
   \<and> greenOnlyCount (summary (compareWorkflowLogs exampleHost (tl blueExample) (tl (tl greenExample)) noOptions)) = 0
   \<and> matchedCount (summary (compareWorkflowLogs exampleHost (tl blueExample) (tl (tl greenExample)) noOptions))
     + mismatchedCount (summary (compareWorkflowLogs exampleHost (tl blueExample) (tl (tl greenExample)) noOptions)) = 1"
  using compareWorkflowLogs_counters [of exampleHost "tl blueExample" "tl (tl greenExample)" noOptions]
  by (simp add: Let_def blueExample_def greenExample_def)

text \<open>
  Claim C10. At every index below the length of the longer sequence: a falsy blue entry
  makes the pair green-only, whatever the green entry is; otherwise a falsy green entry
  makes it blue-only; only the remaining pairs, both truthy, are compared, counted as
  matched or mismatched, and listed among the differences.
\<close>

theorem compareWorkflowLogs_falsy_entries:
  "let r = compareWorkflowLogs h blueLogs greenLogs opts;
       n = max (length blueLogs) (length greenLogs);
       fs = ignoredFields r; ps = ignoredPatterns r in
     greenOnlyLogs r = map (\<lambda>i. (i, at_index greenLogs i)) (filter (greenOnlyAt blueLogs greenLogs) [0..<n])
   \<and> greenOnlyCount (summary r) = length (filter (greenOnlyAt blueLogs greenLogs) [0..<n])
   \<and> blueOnlyLogs r = map (\<lambda>i. (i, at_index blueLogs i)) (filter (blueOnlyAt blueLogs greenLogs) [0..<n])
   \<and> blueOnlyCount (summary r) = length (filter (blueOnlyAt blueLogs greenLogs) [0..<n])
   \<and> matchedCount (summary r) + mismatchedCount (summary r) = length (filter (pairedAt blueLogs greenLogs) [0..<n])
   \<and> map ld_index (logDifferences r) =
        filter (\<lambda>i. pairedAt blueLogs greenLogs i \<and>
                     hasDifferences (compareLogEntries h (at_index blueLogs i) (at_index greenLogs i) fs ps)) [0..<n]"
proof -
  have f: "ignoredFields (foldl (compareAt h b g fs ps) r is) = ignoredFields r"
          "ignoredPatterns (foldl (compareAt h b g fs ps) r is) = ignoredPatterns r" for b g fs ps r "is"
    by (induction "is" arbitrary: r) (simp_all add: compareAt_def Let_def)
  show ?thesis
    unfolding compareWorkflowLogs_def Let_def
    by (simp add: foldl_blueOnly foldl_greenOnly foldl_paired f)
qed



lemma example_classes:
  "filter (greenOnlyAt blueExample greenExample) [0..<4] = [0]"
  "filter (blueOnlyAt blueExample greenExample) [0..<4] = [1, 3]"
  "filter (pairedAt blueExample greenExample) [0..<4] = [2]"
  by code_simp+

theorem compareWorkflowLogs_falsy_entries_witness:
  "greenOnlyLogs (compareWorkflowLogs exampleHost blueExample greenExample noOptions) = [(0, JObj [(''a'', JNum (Fin 1))])]
   \<and> blueOnlyLogs (compareWorkflowLogs exampleHost blueExample greenExample noOptions) = [(1, JObj [(''a'', JNum (Fin 1))]), (3, JObj [])]
   \<and> matchedCount (summary (compareWorkflowLogs exampleHost blueExample greenExample noOptions))
     + mismatchedCount (summary (compareWorkflowLogs exampleHost blueExample greenExample noOptions)) = 1"
proof -
  have n: "max (length blueExample) (length greenExample) = 4"
    by (simp add: blueExample_def greenExample_def)
  have at: "at_index greenExample 0 = JObj [(''a'', JNum (Fin 1))]"
    "at_index blueExample (Suc 0) = JObj [(''a'', JNum (Fin 1))]" "at_index blueExample 3 = JObj []"
    by (simp_all add: at_index_def blueExample_def greenExample_def)
  show ?thesis
    using compareWorkflowLogs_falsy_entries [of exampleHost blueExample greenExample noOptions]
    unfolding Let_def n example_classes by (simp add: at)
qed

section \<open>Properties of the exclusion filter\<close>

lemma matchesAnyPattern_iff:
  "matchesAnyPattern h p parts ps \<longleftrightarrow>
     (\<exists>pat \<in> set ps. \<exists>regex. RegExp h pat = Inr regex \<and> (regex p \<or> (\<exists>seg \<in> set parts. regex seg)))"
  by (induction ps) (auto simp: list_ex_iff split: sum.splits)

lemma matchesAnyPattern_list_ex:
  "matchesAnyPattern h p parts ps =
     list_ex (\<lambda>pat. case RegExp h pat of Inl e \<Rightarrow> False | Inr regex \<Rightarrow> regex p \<or> list_ex regex parts) ps"
  by (induction ps) (auto split: sum.splits)

lemma shouldIgnoreField_iff: "shouldIgnoreField h p fs ps \<longleftrightarrow> ignoredBy h fs ps p"
  by (simp add: shouldIgnoreField_def ignoredBy_def Let_def matchesAnyPattern_list_ex)

lemma matchesAnyPattern_filter:
  "matchesAnyPattern h p parts (filter (compiles h) ps) = matchesAnyPattern h p parts ps"
  by (induction ps) (auto simp: compiles_def split: sum.splits)

lemma shouldIgnoreField_filter:
  "shouldIgnoreField h p fs (filter (compiles h) ps) = shouldIgnoreField h p fs ps"
  by (simp add: shouldIgnoreField_def matchesAnyPattern_filter Let_def list_ex_iff)

lemma removeIgnoredFields_filter:
  "removeIgnoredFields h v fs (filter (compiles h) ps) pp = removeIgnoredFields h v fs ps pp"
  "removeFromItems h xs i fs (filter (compiles h) ps) pp = removeFromItems h xs i fs ps pp"
  "removeFromEntries h es fs (filter (compiles h) ps) pp = removeFromEntries h es fs ps pp"
  by (induction h v fs ps pp and h xs i fs ps pp and h es fs ps pp
      rule: removeIgnoredFields_removeFromItems_removeFromEntries.induct)
     (simp_all add: shouldIgnoreField_filter Let_def assignField_def)

lemma compareLogEntries_filter:
  "compareLogEntries h b g fs (filter (compiles h) ps) = compareLogEntries h b g fs ps"
  by (simp add: compareLogEntries_def removeIgnoredFields_filter)

lemma map_of_removeFromEntries:
  "map_of (removeFromEntries h es fs ps pp) k =
     (if shouldIgnoreField h (fieldPath pp k) fs ps \<or> k = ''__proto__'' then None
      else map_option (\<lambda>v. removeIgnoredFields h v fs ps (fieldPath pp k)) (map_of es k))"
  by (induction es) (auto simp: Let_def assignField_def)

lemma set_removeFromEntries:
  "(k, w') \<in> set (removeFromEntries h es fs ps pp) \<Longrightarrow>
     \<not> shouldIgnoreField h (fieldPath pp k) fs ps \<and> k \<noteq> ''__proto__''
     \<and> (\<exists>w. (k, w) \<in> set es \<and> w' = removeIgnoredFields h w fs ps (fieldPath pp k))"
  by (induction es) (fastforce simp: Let_def assignField_def split: if_splits)+

lemma removeFromItems_nth:
  "length (removeFromItems h xs i fs ps pp) = length xs"
  "j < length xs \<Longrightarrow> removeFromItems h xs i fs ps pp ! j = removeIgnoredFields h (xs ! j) fs ps (elemPath pp (i + j))"
  by (induction xs arbitrary: i j) (auto simp: nth_Cons split: nat.splits)

lemma lookup_removeIgnoredFields:
  "lookup (removeIgnoredFields h v fs ps pp) loc =
     (if (\<exists>q \<in> set (fieldPrefixes loc). shouldIgnoreField h (pathStr pp q) fs ps)
         \<or> Key ''__proto__'' \<in> set loc then None
      else map_option (\<lambda>w. removeIgnoredFields h w fs ps (pathStr pp loc)) (lookup v loc))"
proof (induction loc arbitrary: v pp)
  case Nil
  then show ?case by simp
next
  case (Cons e rest)
  show ?case
  proof (cases e)
    case (Key k)
    show ?thesis
    proof (cases v)
      case (JObj es)
      show ?thesis
        unfolding Key JObj
        by (auto simp: map_of_removeFromEntries Cons.IH split: option.splits)
    qed (auto simp: Key)
  next
    case (Idx i)
    show ?thesis
    proof (cases v)
      case (JArr xs)
      show ?thesis
        unfolding Idx JArr
        by (auto simp: removeFromItems_nth Cons.IH)
    qed (auto simp: Idx)
  qed
qed


lemma endsInKey_fieldPrefixes: "endsInKey loc \<Longrightarrow> loc \<in> set (fieldPrefixes loc)"
proof (induction loc)
  case Nil
  then show ?case by (simp add: endsInKey_def)
next
  case (Cons e rest)
  show ?case
  proof (cases "rest = []")
    case True
    then show ?thesis using Cons.prems by (cases e) (auto simp: endsInKey_def)
  next
    case False
    then have "endsInKey rest" using Cons.prems by (simp add: endsInKey_def)
    then have "rest \<in> set (fieldPrefixes rest)" by (rule Cons.IH)
    then show ?thesis by (cases e) auto
  qed
qed

lemma elemPath_nonempty: "elemPath pp i \<noteq> []"
  by (simp add: elemPath_def)

lemma fieldPath_nonempty: "pp \<noteq> [] \<Longrightarrow> fieldPath pp k \<noteq> []"
  by (simp add: fieldPath_def)

lemma pathStr_pieces:
  "pp \<noteq> [] \<Longrightarrow> pathStr pp loc = pp @ concat (map (\<lambda>(i, p). pathPiece i p) (enumerate (Suc n) loc))"
proof (induction loc arbitrary: pp n)
  case Nil
  then show ?case by simp
next
  case (Cons e rest)
  show ?case
  proof (cases e)
    case (Key k)
    have "fieldPath pp k = pp @ ''.'' @ k" using Cons.prems by (simp add: fieldPath_def)
    then show ?thesis
      using Cons.IH[of "fieldPath pp k" "Suc n"] fieldPath_nonempty[OF Cons.prems] by (simp add: Key)
  next
    case (Idx i)
    show ?thesis
      using Cons.IH[of "elemPath pp i" "Suc n"] elemPath_nonempty by (simp add: Idx elemPath_def)
  qed
qed

lemma pathToString_pathStr:
  assumes "loc \<noteq> []" "hd loc \<noteq> Key []"
  shows "pathToString (Some loc) = pathStr [] loc"
proof (cases loc)
  case Nil
  then show ?thesis using assms by simp
next
  case (Cons e rest)
  show ?thesis
  proof (cases e)
    case (Key k)
    then have k: "k \<noteq> []" using assms Cons by simp
    have "fieldPath [] k = k" by (simp add: fieldPath_def)
    then show ?thesis
      using pathStr_pieces[of k rest 0] k by (simp add: Cons Key pathToString_def)
  next
    case (Idx i)
    show ?thesis
      using pathStr_pieces[of "elemPath [] i" rest 0] elemPath_nonempty
      by (simp add: Cons Idx pathToString_def elemPath_def)
  qed
qed

lemma matchesAnyPattern_host:
  "matchesAnyPattern (h\<lparr>defaultIgnorePatterns := X\<rparr>) p parts ps = matchesAnyPattern h p parts ps"
  by (induction ps) (simp_all split: sum.splits)

lemma shouldIgnoreField_host:
  "shouldIgnoreField (h\<lparr>defaultIgnorePatterns := X\<rparr>) p fs ps = shouldIgnoreField h p fs ps"
  by (simp add: shouldIgnoreField_def matchesAnyPattern_host Let_def list_ex_iff)

lemma removeIgnoredFields_host:
  "removeIgnoredFields (h\<lparr>defaultIgnorePatterns := X\<rparr>) v fs ps pp = removeIgnoredFields h v fs ps pp"
  "removeFromItems (h\<lparr>defaultIgnorePatterns := X\<rparr>) xs i fs ps pp = removeFromItems h xs i fs ps pp"
  "removeFromEntries (h\<lparr>defaultIgnorePatterns := X\<rparr>) es fs ps pp = removeFromEntries h es fs ps pp"
  by (induction h v fs ps pp and h xs i fs ps pp and h es fs ps pp
      rule: removeIgnoredFields_removeFromItems_removeFromEntries.induct)
     (simp_all add: shouldIgnoreField_host Let_def assignField_def)

lemma compareAt_validOnly:
  "compareAt (validOnly h) b g fs (filter (compiles h) ps) r i = compareAt h b g fs ps r i"
proof -
  have d: "deepDiff (validOnly h) = deepDiff h"
    by (simp add: validOnly_def)
  show ?thesis
    unfolding compareAt_def compareLogEntries_def d
    unfolding validOnly_def removeIgnoredFields_host removeIgnoredFields_filter ..
qed

lemma compareAt_ignoredPatterns:
  "compareAt h b g fs ps (r\<lparr>ignoredPatterns := X\<rparr>) i = (compareAt h b g fs ps r i)\<lparr>ignoredPatterns := X\<rparr>"
  by (simp add: compareAt_def Let_def)

lemma foldl_compareAt_ignoredPatterns:
  "foldl (compareAt h b g fs ps) (r\<lparr>ignoredPatterns := X\<rparr>) is
     = (foldl (compareAt h b g fs ps) r is)\<lparr>ignoredPatterns := X\<rparr>"
  by (induction "is" arbitrary: r) (simp_all add: compareAt_ignoredPatterns)

lemma foldl_compareAt_validOnly:
  "foldl (compareAt (validOnly h) b g fs (filter (compiles h) ps)) r is = foldl (compareAt h b g fs ps) r is"
  by (induction "is" arbitrary: r) (simp_all add: compareAt_validOnly)

lemma compareWorkflowLogs_alt:
  "compareWorkflowLogs h b g opts =
     foldl (compareAt h b g (defaultIgnoreFields h @ (case opt_ignoreFields opts of None \<Rightarrow> [] | Some fs \<Rightarrow> fs))
                            (defaultIgnorePatterns h @ (case opt_ignorePatterns opts of None \<Rightarrow> [] | Some ps \<Rightarrow> ps)))
           (report0 b g (defaultIgnoreFields h @ (case opt_ignoreFields opts of None \<Rightarrow> [] | Some fs \<Rightarrow> fs))
                        (defaultIgnorePatterns h @ (case opt_ignorePatterns opts of None \<Rightarrow> [] | Some ps \<Rightarrow> ps)))
           [0 ..< max (length b) (length g)]"
  by (simp add: compareWorkflowLogs_def report0_def Let_def)

lemma foldl_compareAt_keeps_ignoredPatterns:
  "ignoredPatterns (foldl (compareAt h b g fs ps) r is) = ignoredPatterns r"
  by (induction "is" arbitrary: r) (simp_all add: compareAt_def Let_def)

lemma compareWorkflowLogs_validOnly:
  "compareWorkflowLogs h blueLogs greenLogs opts =
     (compareWorkflowLogs (validOnly h) blueLogs greenLogs (validOptions h opts))
        \<lparr> ignoredPatterns := ignoredPatterns (compareWorkflowLogs h blueLogs greenLogs opts) \<rparr>"
proof -
  define FS where "FS = defaultIgnoreFields h @ (case opt_ignoreFields opts of None \<Rightarrow> [] | Some fs \<Rightarrow> fs)"
  define PS where "PS = defaultIgnorePatterns h @ (case opt_ignorePatterns opts of None \<Rightarrow> [] | Some ps \<Rightarrow> ps)"
  define n where "n = max (length blueLogs) (length greenLogs)"
  have fs': "defaultIgnoreFields (validOnly h) @ (case opt_ignoreFields (validOptions h opts) of None \<Rightarrow> [] | Some fs \<Rightarrow> fs) = FS"
    by (simp add: FS_def validOnly_def validOptions_def)
  have ps': "defaultIgnorePatterns (validOnly h) @ (case opt_ignorePatterns (validOptions h opts) of None \<Rightarrow> [] | Some ps \<Rightarrow> ps)
               = filter (compiles h) PS"
    by (cases "opt_ignorePatterns opts") (simp_all add: PS_def validOnly_def validOptions_def)
  have l: "compareWorkflowLogs h blueLogs greenLogs opts =
             foldl (compareAt h blueLogs greenLogs FS PS) (report0 blueLogs greenLogs FS PS) [0..<n]"
    unfolding compareWorkflowLogs_alt FS_def PS_def n_def ..
  have r0: "report0 blueLogs greenLogs FS (filter (compiles h) PS)
              = (report0 blueLogs greenLogs FS PS)\<lparr>ignoredPatterns := filter (compiles h) PS\<rparr>"
    by (simp add: report0_def)
  have r: "compareWorkflowLogs (validOnly h) blueLogs greenLogs (validOptions h opts) =
             (foldl (compareAt h blueLogs greenLogs FS PS) (report0 blueLogs greenLogs FS PS) [0..<n])
                \<lparr>ignoredPatterns := filter (compiles h) PS\<rparr>"
    unfolding compareWorkflowLogs_alt fs' ps' n_def[symmetric] foldl_compareAt_validOnly r0
      foldl_compareAt_ignoredPatterns ..
  have ip: "ignoredPatterns (compareWorkflowLogs h blueLogs greenLogs opts) = PS"
    unfolding l foldl_compareAt_keeps_ignoredPatterns by (simp add: report0_def)
  show ?thesis
    unfolding ip unfolding l r
    using foldl_compareAt_keeps_ignoredPatterns[of h blueLogs greenLogs FS PS "report0 blueLogs greenLogs FS PS" "[0..<n]"]
    by (simp add: report0_def)
qed


lemma occurs_removeIgnoredFields:
  "occurs (removeIgnoredFields h v fs ps pp) loc \<Longrightarrow>
     occurs v loc \<and> (\<forall>q \<in> set (fieldPrefixes loc). \<not> shouldIgnoreField h (pathStr pp q) fs ps)"
proof (induction loc arbitrary: v pp)
  case Nil
  then show ?case by simp
next
  case (Cons e rest)
  show ?case
  proof (cases e)
    case (Key k)
    show ?thesis
    proof (cases v)
      case (JObj es)
      from Cons.prems obtain w' where w': "(k, w') \<in> set (removeFromEntries h es fs ps pp)" "occurs w' rest"
        unfolding Key JObj by (auto simp: list_ex_iff)
      from set_removeFromEntries[OF w'(1)] obtain w where
        w: "\<not> shouldIgnoreField h (fieldPath pp k) fs ps" "(k, w) \<in> set es"
           "w' = removeIgnoredFields h w fs ps (fieldPath pp k)"
        by blast
      from Cons.IH[of w "fieldPath pp k"] w'(2) w(3)
      have "occurs w rest" "\<forall>q \<in> set (fieldPrefixes rest). \<not> shouldIgnoreField h (pathStr (fieldPath pp k) q) fs ps"
        by auto
      then show ?thesis
        unfolding Key JObj using w(1,2) by (auto simp: list_ex_iff)
    qed (use Cons.prems in \<open>auto simp: Key\<close>)
  next
    case (Idx i)
    show ?thesis
    proof (cases v)
      case (JArr xs)
      from Cons.prems have i: "i < length xs" "occurs (removeIgnoredFields h (xs ! i) fs ps (elemPath pp i)) rest"
        unfolding Idx JArr by (auto simp: removeFromItems_nth)
      from Cons.IH[OF i(2)] i(1) show ?thesis
        unfolding Idx JArr by auto
    qed (use Cons.prems in \<open>auto simp: Idx\<close>)
  qed
qed

lemma reported_not_excluded:
  assumes "diffSound h" "d \<in> set (reported h b g fs ps)" "d_path d = Some loc" "endsInKey loc" "hd loc \<noteq> Key []"
  shows "\<not> shouldIgnoreField h (path (toDiffEntry d)) fs ps"
proof -
  from assms(2) obtain ds where
    ds: "deepDiff h (removeIgnoredFields h b fs ps []) (removeIgnoredFields h g fs ps []) = Some ds" "d \<in> set ds"
    by (cases "deepDiff h (removeIgnoredFields h b fs ps []) (removeIgnoredFields h g fs ps [])")
       (simp_all add: reported_def)
  with assms(1,3) have "occurs (removeIgnoredFields h b fs ps []) loc \<or> occurs (removeIgnoredFields h g fs ps []) loc"
    unfolding diffSound_def by blast
  then have "\<forall>q \<in> set (fieldPrefixes loc). \<not> shouldIgnoreField h (pathStr [] q) fs ps"
    using occurs_removeIgnoredFields by blast
  then have "\<not> shouldIgnoreField h (pathStr [] loc) fs ps"
    using endsInKey_fieldPrefixes[OF assms(4)] by blast
  moreover have "loc \<noteq> []" using assms(4) by (simp add: endsInKey_def)
  then have "pathToString (Some loc) = pathStr [] loc" using assms(5) by (rule pathToString_pathStr)
  ultimately show ?thesis by (simp add: toDiffEntry_def assms(3))
qed

lemma differences_reported:
  "differences (compareLogEntries h b g fs ps) = map toDiffEntry (reported h b g fs ps)"
  by (simp add: compareLogEntries_def reported_def Let_def)

lemma scalarDiff_path: "d \<in> set (scalarDiff p l r) \<Longrightarrow> d_path d = Some p"
  by (auto simp: scalarDiff_def split: if_splits)

lemma scalarDiff_occurs:
  "\<forall>d \<in> set (scalarDiff p l r). \<exists>loc. d_path d = Some (p @ loc) \<and> (occurs l loc \<or> occurs r loc)"
proof
  fix d assume "d \<in> set (scalarDiff p l r)"
  then have "d_path d = Some (p @ []) \<and> (occurs l [] \<or> occurs r [])" by (simp add: scalarDiff_path)
  then show "\<exists>loc. d_path d = Some (p @ loc) \<and> (occurs l loc \<or> occurs r loc)" by blast
qed

lemma diffAt_occurs:
  "\<forall>d \<in> set (diffAt p l r). \<exists>loc. d_path d = Some (p @ loc) \<and> (occurs l loc \<or> occurs r loc)"
  "\<forall>d \<in> set (diffItems p i xs ys). \<exists>j loc. d_path d = Some (p @ Idx (i + j) # loc) \<and> j < length xs \<and> j < length ys
       \<and> (occurs (xs ! j) loc \<or> occurs (ys ! j) loc)"
  "\<forall>d \<in> set (diffEntries p es fs). \<exists>k loc. d_path d = Some (p @ Key k # loc)
       \<and> ((\<exists>v. (k, v) \<in> set es \<and> occurs v loc) \<or> (\<exists>w. (k, w) \<in> set fs \<and> occurs w loc))"
proof (induction p l r and p i xs ys and p es fs rule: diffAt_diffItems_diffEntries.induct)
  case (1 p xs ys)
  show ?case
  proof
    fix d assume "d \<in> set (diffAt p (JArr xs) (JArr ys))"
    then consider "d_path d = Some p" | "d \<in> set (diffItems p 0 xs ys)" by auto
    then show "\<exists>loc. d_path d = Some (p @ loc) \<and> (occurs (JArr xs) loc \<or> occurs (JArr ys) loc)"
    proof cases
      case 1
      then have "d_path d = Some (p @ []) \<and> (occurs (JArr xs) [] \<or> occurs (JArr ys) [])" by simp
      then show ?thesis by blast
    next
      case 2
      with "1.IH" obtain j loc where j: "d_path d = Some (p @ Idx j # loc)" "j < length xs" "j < length ys"
        "occurs (xs ! j) loc \<or> occurs (ys ! j) loc"
        by auto
      then have "d_path d = Some (p @ (Idx j # loc)) \<and> (occurs (JArr xs) (Idx j # loc) \<or> occurs (JArr ys) (Idx j # loc))"
        by simp
      then show ?thesis by blast
    qed
  qed
next
  case (2 p es fs)
  show ?case
  proof
    fix d assume "d \<in> set (diffAt p (JObj es) (JObj fs))"
    then consider "d \<in> set (diffEntries p es fs)"
      | k v where "(k, v) \<in> set fs" "d \<in> set (scalarDiff (p @ [Key k]) JUndefined v)"
      by auto
    then show "\<exists>loc. d_path d = Some (p @ loc) \<and> (occurs (JObj es) loc \<or> occurs (JObj fs) loc)"
    proof cases
      case 1
      with "2.IH" obtain k loc where k: "d_path d = Some (p @ Key k # loc)"
        "(\<exists>v. (k, v) \<in> set es \<and> occurs v loc) \<or> (\<exists>w. (k, w) \<in> set fs \<and> occurs w loc)"
        by blast
      then have "d_path d = Some (p @ (Key k # loc)) \<and> (occurs (JObj es) (Key k # loc) \<or> occurs (JObj fs) (Key k # loc))"
        by (auto simp: list_ex_iff)
      then show ?thesis by blast
    next
      case 2
      then have "d_path d = Some (p @ [Key k]) \<and> (occurs (JObj es) [Key k] \<or> occurs (JObj fs) [Key k])"
        using scalarDiff_path by (auto simp: list_ex_iff)
      then show ?thesis by blast
    qed
  qed
next
  case (6 p i x xs y ys)
  show ?case
  proof
    fix d assume "d \<in> set (diffItems p i (x # xs) (y # ys))"
    then consider "d \<in> set (diffItems p (Suc i) xs ys)" | "d \<in> set (diffAt (p @ [Idx i]) x y)" by auto
    then show "\<exists>j loc. d_path d = Some (p @ Idx (i + j) # loc) \<and> j < length (x # xs) \<and> j < length (y # ys)
       \<and> (occurs ((x # xs) ! j) loc \<or> occurs ((y # ys) ! j) loc)"
    proof cases
      case 1
      with "6.IH"(1) obtain j loc where "d_path d = Some (p @ Idx (Suc i + j) # loc)" "j < length xs" "j < length ys"
        "occurs (xs ! j) loc \<or> occurs (ys ! j) loc"
        by blast
      then have "d_path d = Some (p @ Idx (i + Suc j) # loc) \<and> Suc j < length (x # xs) \<and> Suc j < length (y # ys)
       \<and> (occurs ((x # xs) ! Suc j) loc \<or> occurs ((y # ys) ! Suc j) loc)"
        by simp
      then show ?thesis by blast
    next
      case 2
      with "6.IH"(2) obtain loc where "d_path d = Some ((p @ [Idx i]) @ loc)" "occurs x loc \<or> occurs y loc"
        by blast
      then have "d_path d = Some (p @ Idx (i + 0) # loc) \<and> 0 < length (x # xs) \<and> 0 < length (y # ys)
       \<and> (occurs ((x # xs) ! 0) loc \<or> occurs ((y # ys) ! 0) loc)"
        by simp
      then show ?thesis by blast
    qed
  qed
next
  case (8 p k v es fs)
  show ?case
  proof
    fix d assume d: "d \<in> set (diffEntries p ((k, v) # es) fs)"
    show "\<exists>k' loc. d_path d = Some (p @ Key k' # loc)
       \<and> ((\<exists>v'. (k', v') \<in> set ((k, v) # es) \<and> occurs v' loc) \<or> (\<exists>w. (k', w) \<in> set fs \<and> occurs w loc))"
    proof (cases "d \<in> set (diffEntries p es fs)")
      case True
      with "8.IH"(2) obtain k' loc where "d_path d = Some (p @ Key k' # loc)"
        "(\<exists>v'. (k', v') \<in> set es \<and> occurs v' loc) \<or> (\<exists>w. (k', w) \<in> set fs \<and> occurs w loc)"
        by blast
      then have "d_path d = Some (p @ Key k' # loc)
       \<and> ((\<exists>v'. (k', v') \<in> set ((k, v) # es) \<and> occurs v' loc) \<or> (\<exists>w. (k', w) \<in> set fs \<and> occurs w loc))"
        by auto
      then show ?thesis by blast
    next
      case False
      show ?thesis
      proof (cases "map_of fs k")
        case None
        with d False have "d \<in> set (scalarDiff (p @ [Key k]) v JUndefined)" by simp
        then have "d_path d = Some (p @ Key k # [])
          \<and> ((\<exists>v'. (k, v') \<in> set ((k, v) # es) \<and> occurs v' []) \<or> (\<exists>w. (k, w) \<in> set fs \<and> occurs w []))"
          using scalarDiff_path by auto
        then show ?thesis by blast
      next
        case (Some w)
        with d False have "d \<in> set (diffAt (p @ [Key k]) v w)" by simp
        with "8.IH"(1)[OF Some] obtain loc where "d_path d = Some ((p @ [Key k]) @ loc)" "occurs v loc \<or> occurs w loc"
          by blast
        moreover have "(k, w) \<in> set fs" using Some by (rule map_of_SomeD)
        ultimately have "d_path d = Some (p @ Key k # loc)
          \<and> ((\<exists>v'. (k, v') \<in> set ((k, v) # es) \<and> occurs v' loc) \<or> (\<exists>w. (k, w) \<in> set fs \<and> occurs w loc))"
          by auto
        then show ?thesis by blast
      qed
    qed
  qed
qed (simp_all add: scalarDiff_occurs)

lemma diffSound_exampleHost: "diffSound exampleHost"
  unfolding diffSound_def
proof (intro allI impI, elim conjE)
  fix l r ds d loc
  assume a: "deepDiff exampleHost l r = Some ds" "d \<in> set ds" "d_path d = Some loc"
  from a(1,2) obtain d0 where d0: "d0 \<in> set (diffAt [] l r)"
    "d = (case d0 of RawDiff k p a b i it \<Rightarrow> RawDiff k (if p = Some [] then None else p) a b i it)"
    by (auto simp: exampleHost_def exampleDiff_def Let_def split: if_splits)
  from d0(2) a(3) have "d_path d0 = Some loc" by (cases d0) (auto split: if_splits)
  with diffAt_occurs(1)[of "[]" l r] d0(1) show "occurs l loc \<or> occurs r loc" by auto
qed

text \<open>
  Claim C5. A path is excluded exactly when it satisfies the exclusion condition; a rule
  naming \<^verbatim>\<open>level\<close> excludes the top-level \<^verbatim>\<open>level\<close> and the nested \<^verbatim>\<open>log.level\<close>. A location
  of the input is present in the filtered record exactly when neither it nor a field that
  encloses it is excluded, and no key on the way to it is \<^verbatim>\<open>__proto__\<close>. The differences
  that \<^verbatim>\<open>compareLogEntries\<close> returns are the ones deep-diff reports for the two filtered
  records; when deep-diff reports only locations that occur in one of its two arguments,
  every reported difference at a field (a location that ends in a key) whose outermost key
  is not empty has a path that is not excluded.
\<close>

theorem exclusion_filter:
  "(shouldIgnoreField h p fs ps \<longleftrightarrow> ignoredBy h fs ps p)
   \<and> shouldIgnoreField h ''level'' [''level''] [] \<and> shouldIgnoreField h ''log.level'' [''level''] []
   \<and> (lookup (removeIgnoredFields h v fs ps pp) loc \<noteq> None \<longleftrightarrow>
        lookup v loc \<noteq> None \<and> (\<forall>q \<in> set (fieldPrefixes loc). \<not> shouldIgnoreField h (pathStr pp q) fs ps)
        \<and> Key ''__proto__'' \<notin> set loc)
   \<and> differences (compareLogEntries h b g fs ps) = map toDiffEntry (reported h b g fs ps)
   \<and> (diffSound h \<longrightarrow>
        (\<forall>d \<in> set (reported h b g fs ps). \<forall>l. d_path d = Some l \<and> endsInKey l \<and> hd l \<noteq> Key [] \<longrightarrow>
           \<not> shouldIgnoreField h (path (toDiffEntry d)) fs ps))"
proof -
  have 1: "shouldIgnoreField h p fs ps \<longleftrightarrow> ignoredBy h fs ps p" by (rule shouldIgnoreField_iff)
  have 2: "shouldIgnoreField h ''level'' [''level''] []" "shouldIgnoreField h ''log.level'' [''level''] []"
    by (simp_all add: shouldIgnoreField_def)
  have 3: "lookup (removeIgnoredFields h v fs ps pp) loc \<noteq> None \<longleftrightarrow>
        lookup v loc \<noteq> None \<and> (\<forall>q \<in> set (fieldPrefixes loc). \<not> shouldIgnoreField h (pathStr pp q) fs ps)
        \<and> Key ''__proto__'' \<notin> set loc"
    by (auto simp: lookup_removeIgnoredFields)
  have 4: "differences (compareLogEntries h b g fs ps) = map toDiffEntry (reported h b g fs ps)"
    by (rule differences_reported)
  have 5: "\<not> shouldIgnoreField h (path (toDiffEntry d)) fs ps"
    if "diffSound h" "d \<in> set (reported h b g fs ps)" "d_path d = Some l" "endsInKey l" "hd l \<noteq> Key []" for d l
    using that by (rule reported_not_excluded)
  show ?thesis using 1 2 3 4 5 by blast
qed

lemma exclusion_examples:
  "shouldIgnoreField exampleHost ''user_id'' [''level''] [''['', ''.*_id$'']"
  "lookup (removeIgnoredFields exampleHost deepValue [''level''] [''['', ''.*_id$''] []) [Key ''a'', Key ''d''] = Some (JStr ''x'')"
  "lookup (removeIgnoredFields exampleHost deepValue [''level''] [''['', ''.*_id$''] []) [Key ''log'', Key ''level''] = None"
  "reported exampleHost deepValue deepValue2 [''level''] [''['', ''.*_id$'']
     = [RawDiff KindE (Some [Key ''a'', Key ''d'']) (JStr ''x'') (JStr ''y'') None None]"
  "endsInKey [Key ''a'', Key ''d'']"
  "path (toDiffEntry (RawDiff KindE (Some [Key ''a'', Key ''d'']) (JStr ''x'') (JStr ''y'') None None)) = ''a.d''"
  by code_simp+

theorem exclusion_filter_witness:
  "ignoredBy exampleHost [''level''] [''['', ''.*_id$''] ''user_id''
   \<and> lookup (removeIgnoredFields exampleHost deepValue [''level''] [''['', ''.*_id$''] []) [Key ''a'', Key ''d''] = Some (JStr ''x'')
   \<and> lookup (removeIgnoredFields exampleHost deepValue [''level''] [''['', ''.*_id$''] []) [Key ''log'', Key ''level''] = None
   \<and> map path (differences (compareLogEntries exampleHost deepValue deepValue2 [''level''] [''['', ''.*_id$''])) = [''a.d'']
   \<and> \<not> shouldIgnoreField exampleHost ''a.d'' [''level''] [''['', ''.*_id$'']"
  using exclusion_filter [of exampleHost "''user_id''" "[''level'']" "[''['', ''.*_id$'']" deepValue "[]"
          "[Key ''a'', Key ''d'']" deepValue deepValue2]
    diffSound_exampleHost exclusion_examples
  by simp

text \<open>
  The claim as stated fails in three ways. Below an excluded field: with the exact name
  \<^verbatim>\<open>a.b\<close> excluded, the field \<^verbatim>\<open>a.b.c\<close> is removed with its parent, although neither its path
  nor a segment of its path is in the set of names. At an element of an array: elements
  are never tested against the rules, so with the exact name \<^verbatim>\<open>a[1]\<close> excluded a change of
  the second element of \<^verbatim>\<open>a\<close> is reported with the excluded path \<^verbatim>\<open>a[1]\<close>. Under an empty
  outermost key: the filter tests the field \<^verbatim>\<open>secret\<close> of the object at the key \<^verbatim>\<open>""\<close> under
  the path \<^verbatim>\<open>secret\<close>, and \<^verbatim>\<open>pathToString\<close> names it \<^verbatim>\<open>.secret\<close>, so with the exact name
  \<^verbatim>\<open>.secret\<close> excluded a change of that field is reported with the excluded path. And an own
  entry \<^verbatim>\<open>__proto__\<close> that no rule excludes is not in the filtered copy.
\<close>

theorem exclusion_filter_counterexample:
  "lookup deepValue [Key ''a'', Key ''b'', Key ''c''] = Some (JNum (Fin 1))
   \<and> lookup (removeIgnoredFields exampleHost deepValue [''a.b''] [] []) [Key ''a'', Key ''b'', Key ''c''] = None
   \<and> \<not> ignoredBy exampleHost [''a.b''] [] ''a.b.c''
   \<and> \<not> shouldIgnoreField exampleHost ''a.b.c'' [''a.b''] []
   \<and> map path (differences (compareLogEntries exampleHost (withArray 2) (withArray 3) [''a[1]''] [])) = [''a[1]'']
   \<and> shouldIgnoreField exampleHost ''a[1]'' [''a[1]''] []
   \<and> map path (differences (compareLogEntries exampleHost (underEmptyKey 1) (underEmptyKey 2) [''.secret''] []))
       = [''.secret'']
   \<and> shouldIgnoreField exampleHost ''.secret'' [''.secret''] []
   \<and> removeIgnoredFields exampleHost withProto [] [] [] = JObj [(''b'', JNum (Fin 2))]
   \<and> \<not> shouldIgnoreField exampleHost ''__proto__'' [] []"
  by code_simp

text \<open>
  Claim C6. In the model \<^verbatim>\<open>shouldIgnoreField\<close> and the comparisons built on it are total
  functions into their results: the only exception, the one \<^verbatim>\<open>new RegExp\<close> throws, is
  caught inside the loop. A pattern that does not compile is skipped: each result is the
  result for the patterns that compile. (The report lists the patterns as they were given.)
\<close>

theorem invalid_pattern_skipped:
  "shouldIgnoreField h p fs ps = shouldIgnoreField h p fs (filter (compiles h) ps)
   \<and> removeIgnoredFields h v fs ps pp = removeIgnoredFields h v fs (filter (compiles h) ps) pp
   \<and> compareLogEntries h b g fs ps = compareLogEntries h b g fs (filter (compiles h) ps)
   \<and> compareWorkflowLogs h blueLogs greenLogs opts =
       (compareWorkflowLogs (validOnly h) blueLogs greenLogs (validOptions h opts))
         \<lparr> ignoredPatterns := ignoredPatterns (compareWorkflowLogs h blueLogs greenLogs opts) \<rparr>"
  using compareWorkflowLogs_validOnly [of h blueLogs greenLogs opts]
  by (simp add: shouldIgnoreField_filter removeIgnoredFields_filter compareLogEntries_filter)



lemma skipped_examples:
  "compiles exampleHost ''['' = False"
  "filter (compiles exampleHost) [''['', ''.*_id$''] = [''.*_id$'']"
  "shouldIgnoreField exampleHost ''user_id'' [] [''.*_id$'']"
  by code_simp+

theorem invalid_pattern_skipped_witness:
  "\<not> compiles exampleHost ''[''
   \<and> shouldIgnoreField exampleHost ''user_id'' [] [''['', ''.*_id$'']
   \<and> removeIgnoredFields exampleHost deepValue [] [''['', ''.*_id$''] []
       = removeIgnoredFields exampleHost deepValue [] [''.*_id$''] []"
  using invalid_pattern_skipped [of exampleHost "''user_id''" "[]" "[''['', ''.*_id$'']" deepValue "[]" JNull JNull "[]" "[]" noOptions]
    skipped_examples
  by simp

section \<open>Properties of binary64 rounding\<close>

lemma bexp_hi_bounds: "1 \<le> x \<Longrightarrow> 2 ^ nat (bexp_hi x) \<le> x \<and> x < 2 ^ (nat (bexp_hi x) + 1) \<and> 0 \<le> bexp_hi x"
proof (induction x rule: bexp_hi.induct)
  case (1 x)
  show ?case
  proof (cases "x < 2")
    case True
    then show ?thesis using 1(2) by (simp add: bexp_hi.simps)
  next
    case False
    then have "1 \<le> x / 2" by simp
    from 1(1)[OF False this] have ih: "2 ^ nat (bexp_hi (x / 2)) \<le> x / 2" "x / 2 < 2 ^ (nat (bexp_hi (x / 2)) + 1)" "0 \<le> bexp_hi (x / 2)"
      by auto
    have e: "bexp_hi x = 1 + bexp_hi (x / 2)" using False by (subst bexp_hi.simps) simp
    have n: "nat (bexp_hi x) = Suc (nat (bexp_hi (x / 2)))" using ih(3) e by simp
    show ?thesis using ih unfolding n by (simp add: e)
  qed
qed

lemma bexp_lo_bounds: "0 < x \<Longrightarrow> x < 1 \<Longrightarrow> x * 2 ^ nat (- bexp_lo x) < 2 \<and> 1 \<le> x * 2 ^ nat (- bexp_lo x) \<and> bexp_lo x < 0"
proof (induction x rule: bexp_lo.induct)
  case (1 x)
  have e: "bexp_lo x = bexp_lo (2 * x) - 1" using 1(2,3) by (subst bexp_lo.simps) simp
  show ?case
  proof (cases "2 * x < 1")
    case True
    have "\<not> (x \<le> 0 \<or> 1 \<le> x)" using 1(2,3) by simp
    from 1(1)[OF this _ True] 1(2)
    have ih: "2 * x * 2 ^ nat (- bexp_lo (2 * x)) < 2" "1 \<le> 2 * x * 2 ^ nat (- bexp_lo (2 * x))" "bexp_lo (2 * x) < 0"
      by auto
    have n: "nat (- bexp_lo x) = Suc (nat (- bexp_lo (2 * x)))" using ih(3) e by simp
    show ?thesis using ih unfolding n by (simp add: e mult_ac)
  next
    case False
    then have "bexp_lo (2 * x) = 0" by (subst bexp_lo.simps) simp
    then have "bexp_lo x = -1" using e by simp
    then show ?thesis using False 1(2,3) by simp
  qed
qed

lemma bexp_bounds:
  assumes "0 < x"
  shows "2 powi bexp x \<le> x" "x < 2 powi (bexp x + 1)"
proof -
  show "2 powi bexp x \<le> x"
  proof (cases "1 \<le> x")
    case True
    then show ?thesis using bexp_hi_bounds[OF True] by (simp add: bexp_def power_int_def)
  next
    case False
    then have b: "x * 2 ^ nat (- bexp_lo x) < 2" "1 \<le> x * 2 ^ nat (- bexp_lo x)" "bexp_lo x < 0"
      using bexp_lo_bounds[of x] assms by auto
    then show ?thesis using False by (simp add: bexp_def power_int_def field_simps)
  qed
  show "x < 2 powi (bexp x + 1)"
  proof (cases "1 \<le> x")
    case True
    then show ?thesis using bexp_hi_bounds[OF True] by (simp add: bexp_def power_int_def nat_add_distrib)
  next
    case False
    then have b: "x * 2 ^ nat (- bexp_lo x) < 2" "1 \<le> x * 2 ^ nat (- bexp_lo x)" "bexp_lo x < 0"
      using bexp_lo_bounds[of x] assms by auto
    have p: "(2::rat) powi bexp_lo x = 1 / 2 ^ nat (- bexp_lo x)"
      using b(3) by (simp add: power_int_def inverse_eq_divide power_one_over)
    have "(2::rat) powi (bexp_lo x + 1) = 2 powi bexp_lo x * 2 powi 1"
      by (rule power_int_add) simp
    then have "(2::rat) powi (bexp_lo x + 1) = 2 / 2 ^ nat (- bexp_lo x)"
      unfolding p by simp
    moreover have "x < 2 / 2 ^ nat (- bexp_lo x)" using b(1) by (simp add: pos_less_divide_eq)
    ultimately show ?thesis using False by (simp only: bexp_def if_False)
  qed
qed


lemma rhe_of_int: "round_half_even (of_int n) = n"
  by (simp add: round_half_even_def)

lemma rhe_bounds: "\<lfloor>q\<rfloor> \<le> round_half_even q" "round_half_even q \<le> \<lfloor>q\<rfloor> + 1"
  by (simp_all add: round_half_even_def Let_def)

lemma rhe_mono:
  assumes "x \<le> y"
  shows "round_half_even x \<le> round_half_even y"
proof (cases "\<lfloor>x\<rfloor> = \<lfloor>y\<rfloor>")
  case True
  then show ?thesis using assms by (auto simp: round_half_even_def Let_def)
next
  case False
  then have "\<lfloor>x\<rfloor> < \<lfloor>y\<rfloor>" using floor_mono[OF assms] by simp
  then have "round_half_even x \<le> \<lfloor>y\<rfloor>" using rhe_bounds(2)[of x] by simp
  then show ?thesis using rhe_bounds(1)[of y] by simp
qed

lemma rhe_ge_int: "of_int n \<le> q \<Longrightarrow> n \<le> round_half_even q"
  using rhe_mono[of "of_int n" q] by (simp add: rhe_of_int)

lemma rhe_le_int: "q \<le> of_int n \<Longrightarrow> round_half_even q \<le> n"
  using rhe_mono[of q "of_int n"] by (simp add: rhe_of_int)

lemma fl_pos:
  "0 < x \<Longrightarrow> fl x = of_int (round_half_even (x / 2 powi (bexp x - 52))) * 2 powi (bexp x - 52)"
  by (simp add: fl_def Let_def)

lemma fl_range:
  assumes "0 < x"
  shows "2 powi bexp x \<le> fl x" "fl x \<le> 2 powi (bexp x + 1)"
proof -
  define u :: rat where "u = 2 powi (bexp x - 52)"
  have u: "0 < u" by (simp add: u_def)
  have lo: "2 powi bexp x = 2 ^ 52 * u" and hi: "2 powi (bexp x + 1) = 2 ^ 53 * u"
    by (simp_all add: u_def power_int_diff power_int_add)
  have "of_int (2 ^ 52) \<le> x / u" using bexp_bounds(1)[OF assms] u by (simp add: lo pos_le_divide_eq)
  then have "2 ^ 52 \<le> round_half_even (x / u)" by (rule rhe_ge_int)
  then have "(2 ^ 52 :: rat) \<le> of_int (round_half_even (x / u))" by (metis of_int_le_iff of_int_numeral of_int_power)
  then show "2 powi bexp x \<le> fl x" using u unfolding lo fl_pos[OF assms] u_def[symmetric] by simp
  have "x / u \<le> of_int (2 ^ 53)" using bexp_bounds(2)[OF assms] u by (simp add: hi pos_divide_le_eq)
  then have "round_half_even (x / u) \<le> 2 ^ 53" by (rule rhe_le_int)
  then have "of_int (round_half_even (x / u)) \<le> (2 ^ 53 :: rat)" by (metis of_int_le_iff of_int_numeral of_int_power)
  then show "fl x \<le> 2 powi (bexp x + 1)" using u unfolding hi fl_pos[OF assms] u_def[symmetric] by simp
qed

lemma bexp_mono:
  assumes "0 < x" "x \<le> y"
  shows "bexp x \<le> bexp y"
proof (rule ccontr)
  assume "\<not> bexp x \<le> bexp y"
  then have "bexp y + 1 \<le> bexp x" by simp
  then have "(2::rat) powi (bexp y + 1) \<le> 2 powi bexp x" by (intro power_int_increasing) auto
  also have "\<dots> \<le> x" using bexp_bounds(1)[OF assms(1)] .
  finally show False using bexp_bounds(2)[of y] assms by simp
qed

lemma fl_nonneg: "0 \<le> x \<Longrightarrow> 0 \<le> fl x"
proof (cases "x = 0")
  case True then show ?thesis by (simp add: fl_def)
next
  case False
  assume "0 \<le> x"
  with False have "0 < x" by simp
  from fl_range(1)[OF this] show ?thesis
    by (meson le_less_trans less_le_not_le linear zero_less_power_int zero_less_numeral)
qed

lemma fl_mono:
  assumes "0 \<le> x" "x \<le> y"
  shows "fl x \<le> fl y"
proof (cases "x = 0")
  case True
  then show ?thesis using fl_nonneg[of y] assms by (simp add: fl_def)
next
  case False
  then have x: "0 < x" and y: "0 < y" using assms by auto
  show ?thesis
  proof (cases "bexp x = bexp y")
    case True
    define u :: rat where "u = 2 powi (bexp y - 52)"
    have u: "0 < u" by (simp add: u_def)
    have "x / u \<le> y / u" using assms u by (simp add: divide_right_mono)
    then have "round_half_even (x / u) \<le> round_half_even (y / u)" by (rule rhe_mono)
    then show ?thesis using u unfolding fl_pos[OF x] fl_pos[OF y] True u_def[symmetric] by simp
  next
    case False
    then have "bexp x + 1 \<le> bexp y" using bexp_mono[OF x assms(2)] by simp
    then have "(2::rat) powi (bexp x + 1) \<le> 2 powi bexp y" by (intro power_int_increasing) auto
    then show ?thesis using fl_range(2)[OF x] fl_range(1)[OF y] by linarith
  qed
qed

lemma fl_eval:
  assumes "2 powi e \<le> x" "x < 2 powi (e + 1)"
  shows "fl x = of_int (round_half_even (x / 2 powi (e - 52))) * 2 powi (e - 52)"
proof -
  have x: "0 < x" using assms(1) by (meson less_le_trans zero_less_numeral zero_less_power_int)
  have "bexp x = e"
  proof (rule ccontr)
    assume n: "bexp x \<noteq> e"
    show False
    proof (cases "bexp x < e")
      case True
      then have "bexp x + 1 \<le> e" by simp
      then have "(2::rat) powi (bexp x + 1) \<le> 2 powi e" by (intro power_int_increasing) auto
      then show False using bexp_bounds(2)[OF x] assms(1) by linarith
    next
      case False
      then have "e + 1 \<le> bexp x" using n by simp
      then have "(2::rat) powi (e + 1) \<le> 2 powi bexp x" by (intro power_int_increasing) auto
      then show False using bexp_bounds(1)[OF x] assms(2) by linarith
    qed
  qed
  then show ?thesis using fl_pos[OF x] by simp
qed

lemma rhe_near:
  assumes "\<bar>q - of_int n\<bar> < 1 / 2"
  shows "round_half_even q = n"
proof (cases "of_int n \<le> q")
  case True
  then have "\<lfloor>q\<rfloor> = n" using assms by (simp add: floor_eq_iff abs_if split: if_splits)
  then show ?thesis using assms True by (simp add: round_half_even_def Let_def abs_if split: if_splits)
next
  case False
  then have "\<lfloor>q\<rfloor> = n - 1" using assms by (simp add: floor_eq_iff abs_if split: if_splits)
  then show ?thesis using assms False by (simp add: round_half_even_def Let_def abs_if split: if_splits)
qed

lemma fl_eqI:
  assumes "2 powi e \<le> x" "x < 2 powi (e + 1)" "\<bar>x / 2 powi (e - 52) - of_int n\<bar> < 1 / 2"
  shows "fl x = of_int n * 2 powi (e - 52)"
  using fl_eval[OF assms(1,2)] rhe_near[OF assms(3)] by simp


lemma fl_100: "fl 100 = 100"
  by (subst fl_eqI[where e="6" and n="100 * 2 ^ 46"]) (simp_all add: power_int_minus)

lemma fl_1: "fl 1 = 1"
  by (subst fl_eqI[where e="0" and n="2 ^ 52"]) (simp_all add: power_int_minus)



section \<open>Properties of analyzeLogForErrors\<close>

subsection \<open>The additive steps\<close>

lemma num_add_bound:
  assumes "score r = Fin a" "L \<le> a" "0 \<le> L" "fl L = L"
  shows "\<exists>a'. num_add (score r) (of_nat b) = Fin a' \<and> L \<le> a'"
proof -
  have "fl L \<le> fl (a + of_nat b)" using assms by (intro fl_mono) auto
  then show ?thesis using assms by simp
qed

lemma applyKeyword_bound:
  assumes "score r = Fin a" "L \<le> a" "0 \<le> L" "fl L = L"
  shows "\<exists>a'. score (applyKeyword m r kw) = Fin a' \<and> L \<le> a'"
  using num_add_bound[OF assms, of "snd kw"] assms by (auto simp: applyKeyword_def)

lemma applyPattern_bound:
  assumes "score r = Fin a" "L \<le> a" "0 \<le> L" "fl L = L"
  shows "\<exists>a'. score (applyPattern m r pat) = Fin a' \<and> L \<le> a'"
proof (cases pat)
  case (fields regex s category)
  show ?thesis
    using num_add_bound[OF assms, of s] assms by (auto simp: applyPattern_def fields)
qed

lemma foldl_applyKeyword_bound:
  assumes "score r = Fin a" "L \<le> a" "0 \<le> L" "fl L = L"
  shows "\<exists>a'. score (foldl (applyKeyword m) r kws) = Fin a' \<and> L \<le> a'"
  using assms(1,2)
proof (induction kws arbitrary: r a)
  case Nil
  then show ?case by simp
next
  case (Cons kw kws)
  obtain a' where "score (applyKeyword m r kw) = Fin a'" "L \<le> a'"
    using applyKeyword_bound[OF Cons.prems assms(3,4)] by blast
  then show ?case using Cons.IH by simp
qed

lemma foldl_applyPattern_bound:
  assumes "score r = Fin a" "L \<le> a" "0 \<le> L" "fl L = L"
  shows "\<exists>a'. score (foldl (applyPattern m) r pats) = Fin a' \<and> L \<le> a'"
  using assms(1,2)
proof (induction pats arbitrary: r a)
  case Nil
  then show ?case by simp
next
  case (Cons pat pats)
  obtain a' where "score (applyPattern m r pat) = Fin a'" "L \<le> a'"
    using applyPattern_bound[OF Cons.prems assms(3,4)] by blast
  then show ?case using Cons.IH by simp
qed


lemma applyLevel_fatal: "score (applyLevel ''fatal'' zeroAnalysis) = Fin 100"
  by (simp add: applyLevel_def levelSeverity_def LOG_LEVEL_SEVERITY_def zeroAnalysis_def fl_100)




subsection \<open>The modifiers\<close>

lemma foldl_applyModifier:
  "fst (foldl (applyModifier reason message) st mods) = mulAll (fst st) (map snd (matching message mods))"
proof (induction mods arbitrary: st)
  case Nil
  then show ?case by (simp add: mulAll_def matching_def)
next
  case (Cons m mods)
  show ?case
    using Cons.IH[of "applyModifier reason message st m"]
    by (simp add: applyModifier_def mulAll_def matching_def)
qed

lemma mulAll_nonneg: "0 \<le> a \<Longrightarrow> list_all (\<lambda>c. 0 \<le> c) cs \<Longrightarrow> 0 \<le> mulAll a cs"
proof (induction cs arbitrary: a)
  case Nil
  then show ?case by (simp add: mulAll_def)
next
  case (Cons c cs)
  have "0 \<le> fl c" using Cons.prems by (intro fl_nonneg) simp
  then have "0 \<le> fl (a * fl c)" using Cons.prems by (intro fl_nonneg) simp
  then show ?case using Cons.IH[of "fl (a * fl c)"] Cons.prems by (simp add: mulAll_def)
qed

lemma mulAll_mono:
  "0 \<le> a \<Longrightarrow> a \<le> b \<Longrightarrow> list_all (\<lambda>c. 0 \<le> c) cs \<Longrightarrow> mulAll a cs \<le> mulAll b cs"
proof (induction cs arbitrary: a b)
  case Nil
  then show ?case by (simp add: mulAll_def)
next
  case (Cons c cs)
  have c: "0 \<le> fl c" using Cons.prems by (intro fl_nonneg) simp
  have 1: "0 \<le> fl (a * fl c)" using Cons.prems c by (intro fl_nonneg) simp
  have 2: "fl (a * fl c) \<le> fl (b * fl c)"
    using Cons.prems c by (intro fl_mono) (auto intro: mult_right_mono)
  show ?case using Cons.IH[OF 1 2] Cons.prems by (simp add: mulAll_def)
qed

lemma mulAll_ge_1: "1 \<le> a \<Longrightarrow> list_all (\<lambda>c. 1 \<le> c) cs \<Longrightarrow> 1 \<le> mulAll a cs"
proof (induction cs arbitrary: a)
  case Nil
  then show ?case by (simp add: mulAll_def)
next
  case (Cons c cs)
  have "fl 1 \<le> fl c" using Cons.prems by (intro fl_mono) auto
  then have c: "1 \<le> fl c" by (simp add: fl_1)
  have "1 * 1 \<le> a * fl c" using Cons.prems c by (intro mult_mono) auto
  then have "fl 1 \<le> fl (a * fl c)" by (intro fl_mono) auto
  then have "1 \<le> fl (a * fl c)" by (simp add: fl_1)
  then show ?case using Cons.IH[of "fl (a * fl c)"] Cons.prems by (simp add: mulAll_def)
qed

lemma amplifiers_ge_1: "list_all (\<lambda>c. 1 \<le> c) (map snd amplifiers)"
  by (simp add: amplifiers_def)

lemma dampeners_nonneg: "list_all (\<lambda>c. 0 \<le> c) (map snd dampeners)"
  by (simp add: dampeners_def)

lemma matching_all: "list_all P (map snd mods) \<Longrightarrow> list_all P (map snd (matching message mods))"
  by (auto simp: matching_def list_all_iff)


lemma modifierOf_bounds: "dampProduct message \<le> modifierOf message" "0 \<le> dampProduct message"
proof -
  have a: "1 \<le> mulAll 1 (map snd (matching message amplifiers))"
    by (intro mulAll_ge_1 matching_all amplifiers_ge_1) simp
  have d: "list_all (\<lambda>c. 0 \<le> c) (map snd (matching message dampeners))"
    by (intro matching_all dampeners_nonneg)
  show "dampProduct message \<le> modifierOf message"
    unfolding dampProduct_def modifierOf_def using a d by (intro mulAll_mono) auto
  show "0 \<le> dampProduct message"
    unfolding dampProduct_def using d by (intro mulAll_nonneg) auto
qed

lemma modifierOf_no_dampener:
  "matching message dampeners = [] \<Longrightarrow> 1 \<le> modifierOf message"
  unfolding modifierOf_def
  using mulAll_ge_1[of 1 "map snd (matching message amplifiers)"] matching_all[OF amplifiers_ge_1]
  by (simp add: mulAll_def)


subsection \<open>The result\<close>

lemma scoreRecord_fields:
  "score (scoreRecord lvl msg) = Math_round (num_mul (score (additive lvl msg)) (modifierOf msg))"
  "isError (scoreRecord lvl msg) = num_ge (score (scoreRecord lvl msg)) 25"
  "confidence (scoreRecord lvl msg) =
     (if num_ge (score (scoreRecord lvl msg)) 50 then HIGH
      else if num_ge (score (scoreRecord lvl msg)) 25 then MEDIUM else LOW)"
  by (simp_all add: scoreRecord_def Let_def additive_def modifierOf_def foldl_applyModifier
      ERROR_SCORE_THRESHOLD_def HIGH_CONFIDENCE_THRESHOLD_def)


lemma analyze_cases:
  assumes "analyzeLogForErrors entry = Inr r"
  shows "r = zeroAnalysis \<or> (\<exists>lvl msg. r = scoreRecord lvl msg)"
  using assms by (auto simp: analyzeLogForErrors_def bindE_def split: sum.splits if_splits)


lemma num_ge_trans: "num_ge x b \<Longrightarrow> c \<le> b \<Longrightarrow> num_ge x c"
  by (cases x) auto


lemma getProp_truthy: "truthy v \<Longrightarrow> getProp v k = Inr (field v k)"
  by (cases v) (simp_all add: field_def)

lemma asString_text:
  "stringOrFalsy v \<Longrightarrow> asString (orElse v (JStr [])) = Inr (textOf v)"
  "\<not> stringOrFalsy v \<Longrightarrow> asString (orElse v (JStr [])) = Inl TypeError"
  by (cases v; simp add: stringOrFalsy_def orElse_def textOf_def)+

lemma readMessage_truthy: "truthy entry \<Longrightarrow> readMessage entry = Inr (orElse (field entry ''message'') (JStr []))"
  by (simp add: readMessage_def getProp_truthy bindE_def)

lemma optLevel_field: "optLevel l = Inr (field l ''level'')"
  by (cases l) (simp_all add: optLevel_def field_def)

lemma readLevel_shape:
  "truthy entry \<Longrightarrow> readLevel entry =
     (if stringOrFalsy (levelValue entry) then Inr (levelName entry) else Inl TypeError)"
  by (simp add: readLevel_def getProp_truthy optLevel_field bindE_def levelValue_def[symmetric]
      asString_text levelName_def)

lemma analyze_shape:
  assumes "truthy entry"
  shows "analyzeLogForErrors entry =
     (if stringOrFalsy (levelValue entry) \<and> stringOrFalsy (field entry ''message'')
      then Inr (scoreRecord (levelName entry) (textOf (field entry ''message'')))
      else Inl TypeError)"
  using assms readLevel_shape[OF assms]
  by (simp add: analyzeLogForErrors_def readMessage_truthy bindE_def asString_text)



subsection \<open>Evaluation on the examples\<close>

lemma shape_examples:
  "truthy fatalDebug" "stringOrFalsy (levelValue fatalDebug)" "stringOrFalsy (field fatalDebug ''message'')"
  "levelName fatalDebug = ''fatal''" "textOf (field fatalDebug ''message'') = ''debug test''"
  "\<not> List.member inheritedNames ''fatal''"
  "truthy numericMessage" "\<not> stringOrFalsy (field numericMessage ''message'')"
  "truthy numericLevel" "\<not> stringOrFalsy (levelValue numericLevel)"
  "truthy inheritedLevel" "stringOrFalsy (levelValue inheritedLevel)" "stringOrFalsy (field inheritedLevel ''message'')"
  "levelName inheritedLevel = ''constructor''"
  by code_simp+

lemma foldl_applyKeyword_none:
  "list_all (\<lambda>kw. \<not> includes_str m (fst kw)) kws \<Longrightarrow> foldl (applyKeyword m) r kws = r"
  by (induction kws arbitrary: r) (simp_all add: applyKeyword_def)

lemma foldl_applyPattern_none:
  "list_all (\<lambda>p. \<not> re_test True (fst p) m) pats \<Longrightarrow> foldl (applyPattern m) r pats = r"
  by (induction pats arbitrary: r) (auto simp: applyPattern_def)

lemma debug_test_matches:
  "toLowerCase ''debug test'' = ''debug test''"
  "list_all (\<lambda>kw. \<not> includes_str ''debug test'' (fst kw)) NEGATIVE_ACTION_KEYWORDS"
  "list_all (\<lambda>p. \<not> re_test True (fst p) ''debug test'') STRUCTURAL_PATTERNS"
  "matching ''debug test'' amplifiers = []"
  "map snd (matching ''debug test'' dampeners) = [5 / 10, 7 / 10]"
  by code_simp+

lemma fl_half: "fl (1 / 2) = 1 / 2"
  by (subst fl_eqI[where e="-1" and n="2 ^ 52"]) (simp_all add: power_int_minus)

lemma fl_7_10: "fl (7 / 10) = 3152519739159347 / 4503599627370496"
  by (subst fl_eqI[where e="-1" and n="6305039478318694"]) (simp_all add: power_int_minus)

lemma fl_product: "fl (3152519739159347 / 9007199254740992) = 3152519739159347 / 9007199254740992"
  by (subst fl_eqI[where e="-2" and n="6305039478318694"]) (simp_all add: power_int_minus)

lemma fl_scaled: "fl (100 * (3152519739159347 / 9007199254740992)) = 35"
  by (subst fl_eqI[where e="5" and n="35 * 2 ^ 47"]) (simp_all add: power_int_minus)

lemma modifierOf_debug_test: "modifierOf ''debug test'' = 3152519739159347 / 9007199254740992"
proof -
  have "modifierOf ''debug test'' = fl (fl (1 * fl (5 / 10)) * fl (7 / 10))"
    unfolding modifierOf_def debug_test_matches by (simp add: mulAll_def)
  also have "\<dots> = 3152519739159347 / 9007199254740992"
    by (simp add: fl_half fl_7_10 fl_product)
  finally show ?thesis .
qed

lemma Math_round_int: "Math_round (Fin (of_int n)) = Fin (of_int n)"
proof -
  have "\<lfloor>(of_int n :: rat) + 1 / 2\<rfloor> = n" by (rule floor_unique) simp_all
  then show ?thesis by simp
qed

lemma score_fatalDebug: "score (scoreRecord ''fatal'' ''debug test'') = Fin 35"
proof -
  have a: "score (additive ''fatal'' ''debug test'') = Fin 100"
    unfolding additive_def debug_test_matches(1)
      foldl_applyKeyword_none[OF debug_test_matches(2)] foldl_applyPattern_none[OF debug_test_matches(3)]
    by (rule applyLevel_fatal)
  have "score (scoreRecord ''fatal'' ''debug test'') = Math_round (Fin (of_int 35))"
    by (simp only: scoreRecord_fields(1) a modifierOf_debug_test num_mul.simps fl_scaled) simp
  then show ?thesis by (simp only: Math_round_int) simp
qed

lemma analyze_fatalDebug: "analyzeLogForErrors fatalDebug = Inr (scoreRecord ''fatal'' ''debug test'')"
  by (simp add: analyze_shape shape_examples)

lemma levelName_truthy: "levelName entry \<noteq> [] \<Longrightarrow> truthy entry"
  by (cases entry rule: truthy.cases)
     (simp_all add: levelName_def levelValue_def field_def orElse_def textOf_def trim_def toLowerCase_def)

lemma fatal_examples:
  "levelName fatalQuiet = ''fatal''" "stringOrFalsy (levelValue fatalQuiet)"
  "stringOrFalsy (field fatalQuiet ''message'')" "textOf (field fatalQuiet ''message'') = []"
  "matching [] dampeners = []"
  "truthy fatalNumeric" "\<not> stringOrFalsy (field fatalNumeric ''message'')" "levelName fatalNumeric = ''fatal''"
  by code_simp+

subsection \<open>The claims\<close>




text \<open>
  Claim C3. In every analysis that \<^verbatim>\<open>analyzeLogForErrors\<close> returns, \<open>isError\<close> holds exactly
  when the score is at least 25, the confidence is HIGH exactly when the score is at least
  50, MEDIUM exactly when it is at least 25 and not at least 50, LOW exactly when it is
  not at least 25; so a LOW analysis is not an error.
\<close>

theorem analyzeLogForErrors_thresholds:
  assumes "analyzeLogForErrors entry = Inr r"
  shows "(isError r \<longleftrightarrow> num_ge (score r) 25)
       \<and> (confidence r = HIGH \<longleftrightarrow> num_ge (score r) 50)
       \<and> (confidence r = MEDIUM \<longleftrightarrow> num_ge (score r) 25 \<and> \<not> num_ge (score r) 50)
       \<and> (confidence r = LOW \<longleftrightarrow> \<not> num_ge (score r) 25)
       \<and> (confidence r = LOW \<longrightarrow> \<not> isError r)"
proof -
  have h: "num_ge x 50 \<Longrightarrow> num_ge x 25" for x by (rule num_ge_trans) auto
  from analyze_cases[OF assms] show ?thesis
  proof
    assume "r = zeroAnalysis"
    then show ?thesis by (simp add: zeroAnalysis_def)
  next
    assume "\<exists>lvl msg. r = scoreRecord lvl msg"
    then obtain lvl msg where r: "r = scoreRecord lvl msg" by blast
    show ?thesis unfolding r using h[of "score (scoreRecord lvl msg)"]
      by (auto simp: scoreRecord_fields(2,3))
  qed
qed

theorem analyzeLogForErrors_thresholds_witness:
  "analyzeLogForErrors fatalDebug = Inr (scoreRecord ''fatal'' ''debug test'')
   \<and> score (scoreRecord ''fatal'' ''debug test'') = Fin 35
   \<and> isError (scoreRecord ''fatal'' ''debug test'')
   \<and> confidence (scoreRecord ''fatal'' ''debug test'') = MEDIUM"
  using analyzeLogForErrors_thresholds [OF analyze_fatalDebug] by (simp add: analyze_fatalDebug score_fatalDebug)

text \<open>
  Claim C4. On \<^verbatim>\<open>null\<close> and on \<^verbatim>\<open>undefined\<close> (an absent record) \<^verbatim>\<open>analyzeLogForErrors\<close> returns,
  without an exception, the zero analysis: score 0, not an error, confidence LOW, no
  categories and no reasons.
\<close>

theorem analyzeLogForErrors_absent_record:
  "analyzeLogForErrors JNull = Inr zeroAnalysis \<and> analyzeLogForErrors JUndefined = Inr zeroAnalysis
   \<and> score zeroAnalysis = Fin 0 \<and> \<not> isError zeroAnalysis \<and> confidence zeroAnalysis = LOW
   \<and> categories zeroAnalysis = [] \<and> reasons zeroAnalysis = []"
  by (simp add: analyzeLogForErrors_def zeroAnalysis_def)

text \<open>
  Claim C7. For a record whose normalised level is \<^verbatim>\<open>fatal\<close> and whose level and message are
  each a string or falsy, \<^verbatim>\<open>analyzeLogForErrors\<close> returns an analysis whose score is at least
  \<^verbatim>\<open>Math.round\<close> of 100 times the product of the multipliers of the dampeners that match the
  message (the product as step 4 computes it); when no dampener matches, the score is at
  least 100 and the confidence is HIGH.
\<close>

theorem fatal_level_score:
  assumes "levelName entry = ''fatal''" "stringOrFalsy (levelValue entry)" "stringOrFalsy (field entry ''message'')"
  shows "\<exists>r. analyzeLogForErrors entry = Inr r
           \<and> num_ge (score r) (of_int \<lfloor>fl (100 * dampProduct (textOf (field entry ''message''))) + 1 / 2\<rfloor>)
           \<and> (matching (textOf (field entry ''message'')) dampeners = [] \<longrightarrow>
                num_ge (score r) 100 \<and> confidence r = HIGH)"
proof -
  define msg where "msg = textOf (field entry ''message'')"
  have t: "truthy entry" using levelName_truthy[of entry] assms(1) by simp
  have r: "analyzeLogForErrors entry = Inr (scoreRecord ''fatal'' msg)"
    using assms by (simp add: analyze_shape[OF t] msg_def)
  obtain a1 where a1: "score (foldl (applyKeyword (toLowerCase msg)) (applyLevel ''fatal'' zeroAnalysis) NEGATIVE_ACTION_KEYWORDS) = Fin a1" "100 \<le> a1"
    using foldl_applyKeyword_bound[OF applyLevel_fatal _ _ fl_100] by auto
  obtain a2 where a2: "score (additive ''fatal'' msg) = Fin a2" "100 \<le> a2"
    unfolding additive_def using foldl_applyPattern_bound[OF a1 _ fl_100] by auto
  have s: "score (scoreRecord ''fatal'' msg) = Fin (of_int \<lfloor>fl (a2 * modifierOf msg) + 1 / 2\<rfloor>)"
    by (simp add: scoreRecord_fields(1) a2)
  have d: "0 \<le> dampProduct msg" "dampProduct msg \<le> modifierOf msg"
    using modifierOf_bounds[of msg] by auto
  have "100 * dampProduct msg \<le> a2 * modifierOf msg"
    using a2(2) d by (intro mult_mono) auto
  then have "fl (100 * dampProduct msg) \<le> fl (a2 * modifierOf msg)"
    using d by (intro fl_mono) auto
  then have "\<lfloor>fl (100 * dampProduct msg) + 1 / 2\<rfloor> \<le> \<lfloor>fl (a2 * modifierOf msg) + 1 / 2\<rfloor>"
    by (intro floor_mono) simp
  then have 1: "num_ge (score (scoreRecord ''fatal'' msg)) (of_int \<lfloor>fl (100 * dampProduct msg) + 1 / 2\<rfloor>)"
    by (simp add: s)
  have 2: "num_ge (score (scoreRecord ''fatal'' msg)) 100 \<and> confidence (scoreRecord ''fatal'' msg) = HIGH"
    if n: "matching msg dampeners = []"
  proof -
    have "100 * 1 \<le> a2 * modifierOf msg"
      using a2(2) modifierOf_no_dampener[OF n] by (intro mult_mono) auto
    then have "fl 100 \<le> fl (a2 * modifierOf msg)" by (intro fl_mono) auto
    then have "100 \<le> fl (a2 * modifierOf msg)" by (simp add: fl_100)
    then have "(100::int) \<le> \<lfloor>fl (a2 * modifierOf msg) + 1 / 2\<rfloor>" by (simp add: le_floor_iff)
    then have g: "num_ge (score (scoreRecord ''fatal'' msg)) 100" by (simp add: s)
    then have "num_ge (score (scoreRecord ''fatal'' msg)) 50" by (rule num_ge_trans) simp
    then show ?thesis using g by (simp add: scoreRecord_fields(3))
  qed
  show ?thesis using r 1 2 unfolding msg_def by blast
qed

theorem fatal_level_score_witness:
  "levelName fatalQuiet = ''fatal'' \<and> stringOrFalsy (levelValue fatalQuiet)
   \<and> stringOrFalsy (field fatalQuiet ''message'') \<and> matching (textOf (field fatalQuiet ''message'')) dampeners = []
   \<and> (\<exists>r. analyzeLogForErrors fatalQuiet = Inr r \<and> num_ge (score r) 100 \<and> confidence r = HIGH)"
  using fatal_level_score [OF fatal_examples(1,2,3)] fatal_examples by auto

text \<open>
  The claim as stated fails when two dampeners match: the message \<^verbatim>\<open>debug test\<close> matches the
  dampeners with the multipliers 0.5 and 0.7, and the score of the fatal record is 35, below
  100 times the smaller of the two. It fails as well on a fatal record with a numeric
  message, where the call throws.
\<close>

theorem fatal_level_score_counterexample:
  "levelName fatalDebug = ''fatal''
   \<and> map snd (matching ''debug test'' dampeners) = [5 / 10, 7 / 10]
   \<and> map_sum id score (analyzeLogForErrors fatalDebug) = Inr (Fin 35)
   \<and> \<not> num_ge (Fin 35) (100 * min (5 / 10) (7 / 10))
   \<and> levelName fatalNumeric = ''fatal''
   \<and> analyzeLogForErrors fatalNumeric = Inl TypeError"
  by (simp add: shape_examples fatal_examples analyze_fatalDebug score_fatalDebug debug_test_matches analyze_shape)

end
